theory Spec2Isabelle
  imports Main
begin

section \<open>Python values and strings\<close>

text \<open>
  The records of the upstream feed are JSON objects, so a field holds \<^verbatim>\<open>None\<close>, a boolean,
  an integer, a string, or something else (a float, a list, a nested object). The code
  looks at such a value in four ways only: its truth value, \<^verbatim>\<open>isinstance\<close> against
  \<^verbatim>\<open>str\<close> and \<^verbatim>\<open>int\<close>, its rendering by \<^verbatim>\<open>str()\<close>, and the string methods and regular
  expressions that raise on anything but a string. \<open>PObj b s\<close> stands for a value of any
  other type with truth value \<open>b\<close> and rendering \<open>s\<close>.

  Strings are lists of characters and the character functions below are those of Python
  on ASCII text: characters above code 127 are treated as uncased symbols that are neither
  whitespace nor word characters.
\<close>

datatype pyval = PNone | PBool bool | PInt int | PStr string | PObj bool string

datatype py_error = TypeError | AttributeError | KeyError | SystemExit int

type_synonym raw_record = "string \<rightharpoonup> pyval"

fun truthy :: "pyval \<Rightarrow> bool" where
  "truthy PNone = False"
| "truthy (PBool b) = b"
| "truthy (PInt i) = (i \<noteq> 0)"
| "truthy (PStr s) = (s \<noteq> [])"
| "truthy (PObj b s) = b"

fun is_str :: "pyval \<Rightarrow> bool" where
  "is_str (PStr s) = True"
| "is_str v = False"

text \<open>\<^verbatim>\<open>isinstance(v, (str, int))\<close>: \<^verbatim>\<open>bool\<close> is a subclass of \<^verbatim>\<open>int\<close>.\<close>

fun is_str_or_int :: "pyval \<Rightarrow> bool" where
  "is_str_or_int (PStr s) = True"
| "is_str_or_int (PInt i) = True"
| "is_str_or_int (PBool b) = True"
| "is_str_or_int v = False"

definition digit_char :: "nat \<Rightarrow> char" where
  "digit_char d = ''0123456789'' ! d"

fun nat_digits :: "nat \<Rightarrow> string" where
  "nat_digits n = (if n < 10 then [digit_char n] else nat_digits (n div 10) @ [digit_char (n mod 10)])"

declare nat_digits.simps [simp del]

definition int_str :: "int \<Rightarrow> string" where
  "int_str i = (if i < 0 then CHR ''-'' # nat_digits (nat (- i)) else nat_digits (nat i))"

text \<open>\<^verbatim>\<open>str(v)\<close>.\<close>

fun py_str :: "pyval \<Rightarrow> string" where
  "py_str PNone = ''None''"
| "py_str (PBool b) = (if b then ''True'' else ''False'')"
| "py_str (PInt i) = int_str i"
| "py_str (PStr s) = s"
| "py_str (PObj b s) = s"

text \<open>\<^verbatim>\<open>record.get(k)\<close> and \<^verbatim>\<open>record.get(k, d)\<close>.\<close>

definition dict_get :: "raw_record \<Rightarrow> string \<Rightarrow> pyval" where
  "dict_get r k = (case r k of None \<Rightarrow> PNone | Some v \<Rightarrow> v)"

definition dict_get_default :: "raw_record \<Rightarrow> string \<Rightarrow> pyval \<Rightarrow> pyval" where
  "dict_get_default r k d = (case r k of None \<Rightarrow> d | Some v \<Rightarrow> v)"

text \<open>\<^verbatim>\<open>str.isspace\<close> and the class \<^verbatim>\<open>\s\<close> on ASCII: tab, line feed, vertical tab, form feed,
  carriage return, the four separators 0x1C to 0x1F, and the space.\<close>

definition is_space :: "char \<Rightarrow> bool" where
  "is_space c = (c \<in> set [CHR 0x09, CHR 0x0A, CHR 0x0B, CHR 0x0C, CHR 0x0D,
                            CHR 0x1C, CHR 0x1D, CHR 0x1E, CHR 0x1F, CHR 0x20])"

definition ascii_lowercase :: string where
  "ascii_lowercase = ''abcdefghijklmnopqrstuvwxyz''"

definition ascii_uppercase :: string where
  "ascii_uppercase = ''ABCDEFGHIJKLMNOPQRSTUVWXYZ''"

definition is_alpha :: "char \<Rightarrow> bool" where
  "is_alpha c = (c \<in> set (ascii_lowercase @ ascii_uppercase))"

text \<open>The class \<^verbatim>\<open>\w\<close> on ASCII.\<close>

definition is_word :: "char \<Rightarrow> bool" where
  "is_word c = (is_alpha c \<or> c \<in> set ''0123456789_'')"

definition char_upper :: "char \<Rightarrow> char" where
  "char_upper c = (case map_of (zip ascii_lowercase ascii_uppercase) c of Some u \<Rightarrow> u | None \<Rightarrow> c)"

definition char_lower :: "char \<Rightarrow> char" where
  "char_lower c = (case map_of (zip ascii_uppercase ascii_lowercase) c of Some l \<Rightarrow> l | None \<Rightarrow> c)"

definition upper :: "string \<Rightarrow> string" where
  "upper s = map char_upper s"

definition strip :: "string \<Rightarrow> string" where
  "strip s = rev (dropWhile is_space (rev (dropWhile is_space s)))"

text \<open>\<^verbatim>\<open>str.title\<close>: a letter is upper-cased when the character before it is not a letter and
  lower-cased otherwise.\<close>

fun title_from :: "bool \<Rightarrow> string \<Rightarrow> string" where
  "title_from previous_is_cased [] = []"
| "title_from previous_is_cased (c # cs) =
     (if is_alpha c
      then (if previous_is_cased then char_lower c else char_upper c) # title_from True cs
      else c # title_from False cs)"

definition title :: "string \<Rightarrow> string" where
  "title s = title_from False s"

text \<open>\<^verbatim>\<open>re.sub(r'\s+', ' ', s)\<close>: every maximal run of whitespace becomes one space.\<close>

fun sub_spaces_from :: "bool \<Rightarrow> string \<Rightarrow> string" where
  "sub_spaces_from in_run [] = []"
| "sub_spaces_from in_run (c # cs) =
     (if is_space c
      then (if in_run then sub_spaces_from True cs else CHR 0x20 # sub_spaces_from True cs)
      else c # sub_spaces_from False cs)"

definition sub_spaces :: "string \<Rightarrow> string" where
  "sub_spaces s = sub_spaces_from False s"

text \<open>\<^verbatim>\<open>re.match(r"GRADE (\w+)", value)\<close>, with \<^verbatim>\<open>re.IGNORECASE\<close> when the flag is set: the
  result is group 1 of the match.\<close>

definition match_grade :: "bool \<Rightarrow> string \<Rightarrow> string option" where
  "match_grade ignorecase v =
     (let head = take 6 v; token = takeWhile is_word (drop 6 v)
      in if (if ignorecase then upper head else head) = ''GRADE '' \<and> token \<noteq> []
         then Some token else None)"

text \<open>\<^verbatim>\<open>re.search(r'[A-Za-z]+', value)\<close>: group 0 of the first match.\<close>

definition search_alpha :: "string \<Rightarrow> string option" where
  "search_alpha v =
     (let rest = dropWhile (\<lambda>c. \<not> is_alpha c) v
      in if rest = [] then None else Some (takeWhile is_alpha rest))"

section \<open>The field cleaners of utils.py\<close>

fun clean_student_name :: "pyval \<Rightarrow> py_error + pyval" where
  "clean_student_name (PStr s) = Inr (PStr (title (strip (sub_spaces s))))"
| "clean_student_name v = Inl TypeError"

definition grade_mapping :: "(string \<times> string) list" where
  "grade_mapping =
     [(''Jr.KG'', ''JR.KG''), (''Sr.KG'', ''SR.KG''),
      (''I'', ''1''), (''II'', ''2''), (''III'', ''3''), (''IV'', ''4''), (''V'', ''5''),
      (''VI'', ''6''), (''VII'', ''7''), (''VIII'', ''8''), (''IX'', ''9''), (''X'', ''10'')]"

text \<open>\<^verbatim>\<open>mapping.get(k, d)\<close> on a table of strings.\<close>

definition table_get :: "(string \<times> string) list \<Rightarrow> string \<Rightarrow> string \<Rightarrow> string" where
  "table_get t k d = (case map_of t k of None \<Rightarrow> d | Some v \<Rightarrow> v)"

fun convert_grade_name :: "pyval \<Rightarrow> py_error + pyval" where
  "convert_grade_name (PStr s) =
     (case match_grade True s of
        Some token \<Rightarrow> (let roman = upper token in Inr (PStr (''GRADE '' @ table_get grade_mapping roman roman)))
      | None \<Rightarrow> Inr (PStr (table_get grade_mapping (upper (strip s)) (strip s))))"
| "convert_grade_name v = Inl TypeError"


text \<open>
  The two library functions for the format of the code. \<^verbatim>\<open>strptime\<close> with \<^verbatim>\<open>'%d/%m/%Y'\<close>
  matches the whole text against day, slash, month, slash, year: the day is one digit from 1
  to 9 or two characters from 01 to 31 whose first may be a space, the month one digit from 1
  to 9 or 01 to 12, the year four digits; the date must exist and its year must not be 0.
  \<^verbatim>\<open>strftime\<close> with \<^verbatim>\<open>'%Y-%m-%d'\<close> writes year, month and day with four, two and two digits
  (the C library decides how a year below 1000 is padded).
\<close>

definition digit_of :: "char \<Rightarrow> nat option" where
  "digit_of c = map_of (zip ''0123456789'' [0, 1, 2, 3, 4, 5, 6, 7, 8, 9]) c"

fun parse_day :: "string \<Rightarrow> nat option" where
  "parse_day [b] = (case digit_of b of None \<Rightarrow> None | Some n \<Rightarrow> if 1 \<le> n then Some n else None)"
| "parse_day [a, b] =
     (case digit_of b of
        None \<Rightarrow> None
      | Some n \<Rightarrow>
          if a = CHR 0x20 \<or> a = CHR ''0'' then (if 1 \<le> n then Some n else None)
          else if a = CHR ''1'' then Some (10 + n)
          else if a = CHR ''2'' then Some (20 + n)
          else if a = CHR ''3'' \<and> n \<le> 1 then Some (30 + n)
          else None)"
| "parse_day t = None"

fun parse_month :: "string \<Rightarrow> nat option" where
  "parse_month [b] = (case digit_of b of None \<Rightarrow> None | Some n \<Rightarrow> if 1 \<le> n then Some n else None)"
| "parse_month [a, b] =
     (case digit_of b of
        None \<Rightarrow> None
      | Some n \<Rightarrow>
          if a = CHR ''0'' then (if 1 \<le> n then Some n else None)
          else if a = CHR ''1'' \<and> n \<le> 2 then Some (10 + n)
          else None)"
| "parse_month t = None"

fun parse_year :: "string \<Rightarrow> nat option" where
  "parse_year [a, b, c, d] =
     (case (digit_of a, digit_of b, digit_of c, digit_of d) of
        (Some k, Some h, Some t, Some u) \<Rightarrow> Some (1000 * k + 100 * h + 10 * t + u)
      | _ \<Rightarrow> None)"
| "parse_year t = None"

definition days_in_month :: "nat \<Rightarrow> nat \<Rightarrow> nat" where
  "days_in_month y m =
     (if m = 2 then (if (y mod 4 = 0 \<and> y mod 100 \<noteq> 0) \<or> y mod 400 = 0 then 29 else 28)
      else if m = 4 \<or> m = 6 \<or> m = 9 \<or> m = 11 then 30 else 31)"

definition strptime_dmy :: "string \<Rightarrow> (nat \<times> nat \<times> nat) option" where
  "strptime_dmy s =
     (let day_text = takeWhile (\<lambda>c. c \<noteq> CHR ''/'') s
      in case drop (length day_text) s of
           [] \<Rightarrow> None
         | slash # rest \<Rightarrow>
             (let month_text = takeWhile (\<lambda>c. c \<noteq> CHR ''/'') rest
              in case drop (length month_text) rest of
                   [] \<Rightarrow> None
                 | slash2 # year_text \<Rightarrow>
                     (case (parse_day day_text, parse_month month_text, parse_year year_text) of
                        (Some d, Some m, Some y) \<Rightarrow>
                          if 1 \<le> y \<and> d \<le> days_in_month y m then Some (y, m, d) else None
                      | _ \<Rightarrow> None)))"

definition zero_pad :: "nat \<Rightarrow> nat \<Rightarrow> string" where
  "zero_pad width n = replicate (width - length (nat_digits n)) (CHR ''0'') @ nat_digits n"

fun strftime_ymd :: "nat \<times> nat \<times> nat \<Rightarrow> string" where
  "strftime_ymd (y, m, d) = zero_pad 4 y @ ''-'' @ zero_pad 2 m @ ''-'' @ zero_pad 2 d"

fun clean_gender :: "pyval \<Rightarrow> py_error + pyval" where
  "clean_gender (PStr s) =
     (if s \<noteq> []
      then (let v = upper (strip s)
            in Inr (if v = ''MALE'' then PStr ''M'' else if v = ''FEMALE'' then PStr ''F'' else PNone))
      else Inr PNone)"
| "clean_gender v = (if truthy v then Inl AttributeError else Inr PNone)"

fun extract_division :: "pyval \<Rightarrow> py_error + pyval" where
  "extract_division (PStr s) =
     (if s \<noteq> []
      then (case search_alpha s of Some m \<Rightarrow> Inr (PStr (upper m)) | None \<Rightarrow> Inr (PStr (upper (strip s))))
      else Inr PNone)"
| "extract_division v = (if truthy v then Inl TypeError else Inr PNone)"

definition generate_unique_key :: "raw_record \<Rightarrow> string \<Rightarrow> py_error + string" where
  "generate_unique_key record academic_year =
     (let school_name = strip (py_str (dict_get_default record ''school_name'' (PStr [])));
          student_id = strip (py_str (dict_get_default record ''student_id'' (PStr [])));
          grade_name = strip (py_str (dict_get_default record ''grade_name'' (PStr [])))
      in case convert_grade_name (PStr grade_name) of
           Inl e \<Rightarrow> Inl e
         | Inr converted_grade \<Rightarrow>
             Inr (school_name @ ''_'' @ student_id @ ''_'' @ academic_year @ ''_'' @ py_str converted_grade))"

fun trim_string :: "pyval \<Rightarrow> pyval" where
  "trim_string (PStr s) = PStr (strip s)"
| "trim_string v = v"

section \<open>The variants of sync\_students.py and active\_student\_data\_yearly.py\<close>

definition roman_to_number :: "(string \<times> string) list" where
  "roman_to_number =
     [(''I'', ''1''), (''II'', ''2''), (''III'', ''3''), (''IV'', ''4''), (''V'', ''5''),
      (''VI'', ''6''), (''VII'', ''7''), (''VIII'', ''8''), (''IX'', ''9''), (''X'', ''10'')]"

fun sync_students_convert_grade_name :: "pyval \<Rightarrow> py_error + pyval" where
  "sync_students_convert_grade_name (PStr s) =
     (if s = [] then Inr PNone
      else (let v = strip s
            in if v = ''Jr.KG'' then Inr (PStr ''JR.KG'')
               else if v = ''Sr.KG'' then Inr (PStr ''SR.KG'')
               else (case match_grade False (upper v) of
                       Some roman \<Rightarrow> Inr (PStr (''GRADE '' @ table_get roman_to_number (upper roman) roman))
                     | None \<Rightarrow> Inr (PStr (upper v)))))"
| "sync_students_convert_grade_name v = (if truthy v then Inl AttributeError else Inr PNone)"


text \<open>\<^verbatim>\<open>record['k']\<close> raises \<^verbatim>\<open>KeyError\<close> on a missing key.\<close>

definition sync_students_generate_unique_key :: "raw_record \<Rightarrow> py_error + string" where
  "sync_students_generate_unique_key record =
     (case record ''school_name'' of
        None \<Rightarrow> Inl KeyError
      | Some sn \<Rightarrow>
          (case sn of
             PStr s \<Rightarrow>
               (let school = upper (strip (sub_spaces s))
                in case record ''student_id'' of
                     None \<Rightarrow> Inl KeyError
                   | Some sid \<Rightarrow>
                       (let student_id = upper (strip (py_str sid))
                        in case record ''academic_year'' of
                             None \<Rightarrow> Inl KeyError
                           | Some ay \<Rightarrow>
                               (case ay of
                                  PStr y \<Rightarrow> Inr (school @ ''_'' @ student_id @ ''_'' @ strip y)
                                | _ \<Rightarrow> Inl AttributeError)))
           | _ \<Rightarrow> Inl TypeError))"

fun yearly_convert_grade_name :: "pyval \<Rightarrow> py_error + pyval" where
  "yearly_convert_grade_name (PStr s) =
     (if s = [] then Inr PNone
      else if s = ''Jr.KG'' then Inr (PStr ''JR.KG'')
      else if s = ''Sr.KG'' then Inr (PStr ''SR.KG'')
      else (case match_grade False s of
              Some roman \<Rightarrow> Inr (PStr (''GRADE '' @ table_get roman_to_number roman roman))
            | None \<Rightarrow> Inr (PStr s)))"
| "yearly_convert_grade_name v = (if truthy v then Inl TypeError else Inr PNone)"



section \<open>The record validator of utils.py\<close>

definition required_fields :: "string list" where
  "required_fields =
     [''school_name'', ''status'', ''grade_name'', ''student_name'', ''student_id'', ''gender'',
      ''division_name'']"

text \<open>\<^verbatim>\<open>field not in record or not trim_string(record[field])\<close>.\<close>

definition missing_or_empty :: "raw_record \<Rightarrow> string \<Rightarrow> bool" where
  "missing_or_empty record field =
     (case record field of None \<Rightarrow> True | Some v \<Rightarrow> \<not> truthy (trim_string v))"

definition missing_message :: "string \<Rightarrow> string" where
  "missing_message field = ''Missing or empty required field: '' @ [CHR 0x27] @ field @ [CHR 0x27]"

definition invalid_type_message :: string where
  "invalid_type_message =
     ''Invalid '' @ [CHR 0x27] @ ''student_id'' @ [CHR 0x27] @ '' type, must be string or int.''"

text \<open>The pair \<^verbatim>\<open>(False, message)\<close> is \<open>Inl message\<close>, the pair \<^verbatim>\<open>(True, record)\<close> is
  \<open>Inr record\<close>. The loop over the required fields returns at the first field that fails.\<close>

definition validate_student_record :: "raw_record \<Rightarrow> string + raw_record" where
  "validate_student_record record =
     (case find (missing_or_empty record) required_fields of
        Some field \<Rightarrow> Inl (missing_message field)
      | None \<Rightarrow>
          if \<not> is_str_or_int (dict_get record ''student_id'') then Inl invalid_type_message
          else Inr record)"

section \<open>The store of database.py\<close>

text \<open>
  The cursor is the state of the two tables. The table \<^verbatim>\<open>active_student_data\<close> is the list
  of its rows and carries the constraint \<^verbatim>\<open>UNIQUE (unique_key)\<close>: an insert of a key that is
  already there fails with errno 1062, the one database error the code tells apart. Every
  other statement succeeds. The columns that take the values of a record are \<^verbatim>\<open>VARCHAR\<close>,
  \<^verbatim>\<open>CHAR\<close> or \<^verbatim>\<open>TEXT\<close>: a column holds a text or \<^verbatim>\<open>NULL\<close> (\<open>PNone\<close>), and \<open>sql_text\<close> is what
  it holds after a Python value has been written to it. Column widths are not modelled;
  comparisons in SQL are exact, and a comparison with \<^verbatim>\<open>NULL\<close> selects no row. The field
  \<open>writes\<close> lists the statements that changed a row of \<^verbatim>\<open>active_student_data\<close>. Every
  \<^verbatim>\<open>datetime.now()\<close> of one run reads the same clock value.
\<close>

record row =
  row_school_name :: pyval
  row_status :: pyval
  row_grade_name :: pyval
  row_student_name :: pyval
  row_student_id :: pyval
  row_gender :: pyval
  row_division_name :: pyval
  row_academic_year :: string
  row_unique_key :: string
  row_timestamp :: string

datatype change_type = INSERT | UPDATE | INACTIVATE

record history_entry =
  h_unique_key :: string
  h_change_type :: change_type
  h_field_changed :: pyval
  h_old_value :: pyval
  h_new_value :: pyval
  h_change_timestamp :: string

datatype db_write = Inserted string | Updated string | Inactivated string

record cursor =
  active_student_data :: "row list"
  student_data_history :: "history_entry list"
  writes :: "db_write list"

text \<open>
  The connector sends \<^verbatim>\<open>None\<close> as \<^verbatim>\<open>NULL\<close>, a string as it is, an integer as its decimal
  numeral and a boolean as the integer 1 or 0; the column keeps the text of what it gets. A
  value of another type is taken with its rendering.
\<close>

fun sql_text :: "pyval \<Rightarrow> pyval" where
  "sql_text PNone = PNone"
| "sql_text (PBool b) = PStr (if b then ''1'' else ''0'')"
| "sql_text (PInt i) = PStr (int_str i)"
| "sql_text (PStr s) = PStr s"
| "sql_text (PObj b s) = PStr s"

text \<open>\<^verbatim>\<open>SELECT ... WHERE unique_key = %s\<close> followed by \<^verbatim>\<open>fetchone()\<close>.\<close>

definition fetchone :: "row list \<Rightarrow> string \<Rightarrow> row option" where
  "fetchone rows unique_key = find (\<lambda>r. row_unique_key r = unique_key) rows"

text \<open>The Python set of keys is a list without duplicates.\<close>

definition fetch_existing_keys :: "cursor \<Rightarrow> string \<Rightarrow> string list" where
  "fetch_existing_keys cur academic_year =
     remdups (map row_unique_key (filter (\<lambda>r. row_academic_year r = academic_year) (active_student_data cur)))"

definition record_details :: "row \<Rightarrow> raw_record" where
  "record_details r =
     [''status'' \<mapsto> row_status r, ''grade_name'' \<mapsto> row_grade_name r,
      ''student_name'' \<mapsto> row_student_name r, ''gender'' \<mapsto> row_gender r,
      ''division_name'' \<mapsto> row_division_name r]"

definition get_current_record_details :: "cursor \<Rightarrow> string \<Rightarrow> raw_record option" where
  "get_current_record_details cur unique_key =
     (case fetchone (active_student_data cur) unique_key of
        None \<Rightarrow> None
      | Some r \<Rightarrow> Some (record_details r))"

definition log_history ::
  "string \<Rightarrow> cursor \<Rightarrow> string \<Rightarrow> change_type \<Rightarrow> pyval \<Rightarrow> pyval \<Rightarrow> pyval \<Rightarrow> cursor" where
  "log_history now cur unique_key ct field_changed old_value new_value =
     cur\<lparr>student_data_history := student_data_history cur @
           [\<lparr>h_unique_key = unique_key, h_change_type = ct, h_field_changed = sql_text field_changed,
             h_old_value = sql_text old_value, h_new_value = sql_text new_value,
             h_change_timestamp = now\<rparr>]\<rparr>"

text \<open>The loop of \<^verbatim>\<open>update_existing_record\<close> over \<^verbatim>\<open>fields_to_check\<close>: the fields whose stored
  and new value differ as text, each with the old and the new value.\<close>

definition field_changes :: "raw_record \<Rightarrow> (string \<times> pyval) list \<Rightarrow> (string \<times> pyval \<times> pyval) list" where
  "field_changes current_record_details fields_to_check =
     map (\<lambda>(field, new_val). (field, dict_get current_record_details field, new_val))
       (filter (\<lambda>(field, new_val). py_str (dict_get current_record_details field) \<noteq> py_str new_val)
          fields_to_check)"

definition log_changes :: "string \<Rightarrow> string \<Rightarrow> cursor \<Rightarrow> (string \<times> pyval \<times> pyval) list \<Rightarrow> cursor" where
  "log_changes now unique_key cur changes =
     foldl (\<lambda>c (field, old_val, new_val). log_history now c unique_key UPDATE (PStr field) old_val new_val)
       cur changes"

text \<open>The new values of \<^verbatim>\<open>update_existing_record\<close>, in the order of \<^verbatim>\<open>fields_to_check\<close>; a
  cleaner that raises ends the call.\<close>

definition fields_to_check :: "raw_record \<Rightarrow> py_error + (string \<times> pyval) list" where
  "fields_to_check record =
     (let new_status = trim_string (dict_get record ''status'')
      in case convert_grade_name (dict_get record ''grade_name'') of
           Inl e \<Rightarrow> Inl e
         | Inr new_grade_name \<Rightarrow>
             (case clean_student_name (dict_get record ''student_name'') of
                Inl e \<Rightarrow> Inl e
              | Inr new_student_name \<Rightarrow>
                  (let new_gender = dict_get record ''gender''
                   in case extract_division (dict_get record ''division_name'') of
                        Inl e \<Rightarrow> Inl e
                      | Inr new_division_name \<Rightarrow>
                          Inr [(''status'', new_status), (''grade_name'', new_grade_name),
                               (''student_name'', new_student_name), (''gender'', new_gender),
                               (''division_name'', new_division_name)])))"

text \<open>\<^verbatim>\<open>UPDATE active_student_data SET status = %s, ..., timestamp = %s WHERE unique_key = %s\<close>.\<close>

definition sql_update :: "string \<Rightarrow> string \<Rightarrow> raw_record \<Rightarrow> row list \<Rightarrow> row list" where
  "sql_update now unique_key new rows =
     map (\<lambda>r. if row_unique_key r = unique_key
               then r\<lparr>row_status := sql_text (dict_get new ''status''),
                      row_grade_name := sql_text (dict_get new ''grade_name''),
                      row_student_name := sql_text (dict_get new ''student_name''),
                      row_gender := sql_text (dict_get new ''gender''),
                      row_division_name := sql_text (dict_get new ''division_name''),
                      row_timestamp := now\<rparr>
               else r) rows"

definition update_existing_record :: "string \<Rightarrow> cursor \<Rightarrow> raw_record \<Rightarrow> string \<Rightarrow> py_error + cursor" where
  "update_existing_record now cur record unique_key =
     (case get_current_record_details cur unique_key of
        None \<Rightarrow> Inr cur
      | Some current_record_details \<Rightarrow>
          (case fields_to_check record of
             Inl e \<Rightarrow> Inl e
           | Inr to_check \<Rightarrow>
               (let changes = field_changes current_record_details to_check;
                    cur1 = log_changes now unique_key cur changes
                in if changes \<noteq> []
                   then Inr (cur1\<lparr>active_student_data :=
                                    sql_update now unique_key (map_of to_check) (active_student_data cur1),
                                  writes := writes cur1 @ [Updated unique_key]\<rparr>)
                   else Inr cur1)))"

definition insert_new_record ::
  "string \<Rightarrow> cursor \<Rightarrow> raw_record \<Rightarrow> string \<Rightarrow> string \<Rightarrow> py_error + cursor" where
  "insert_new_record now cur record unique_key academic_year =
     (let cleaned_school_name = trim_string (dict_get record ''school_name'');
          cleaned_status = trim_string (dict_get record ''status'')
      in case convert_grade_name (dict_get record ''grade_name'') of
           Inl e \<Rightarrow> Inl e
         | Inr converted_grade \<Rightarrow>
             (case clean_student_name (dict_get record ''student_name'') of
                Inl e \<Rightarrow> Inl e
              | Inr cleaned_student_name \<Rightarrow>
                  (let cleaned_student_id = trim_string (dict_get record ''student_id'');
                       cleaned_gender = dict_get record ''gender''
                   in case extract_division (dict_get record ''division_name'') of
                        Inl e \<Rightarrow> Inl e
                      | Inr extracted_division \<Rightarrow>
                          (case fetchone (active_student_data cur) unique_key of
                             Some r \<Rightarrow> Inr cur
                           | None \<Rightarrow>
                               Inr (log_history now
                                     (cur\<lparr>active_student_data := active_student_data cur @
                                            [\<lparr>row_school_name = sql_text cleaned_school_name,
                                              row_status = sql_text cleaned_status,
                                              row_grade_name = sql_text converted_grade,
                                              row_student_name = sql_text cleaned_student_name,
                                              row_student_id = sql_text cleaned_student_id,
                                              row_gender = sql_text cleaned_gender,
                                              row_division_name = sql_text extracted_division,
                                              row_academic_year = academic_year, row_unique_key = unique_key,
                                              row_timestamp = now\<rparr>],
                                          writes := writes cur @ [Inserted unique_key]\<rparr>)
                                     unique_key INSERT (PStr ''New Record'') PNone
                                     (PStr ''Initial Insertion''))))))"

text \<open>The condition \<^verbatim>\<open>status != 'Inactive'\<close> of the SQL statement: false on \<^verbatim>\<open>NULL\<close>.\<close>

definition sql_not_inactive :: "pyval \<Rightarrow> bool" where
  "sql_not_inactive v = (v \<noteq> PNone \<and> v \<noteq> PStr ''Inactive'')"

text \<open>\<^verbatim>\<open>UPDATE active_student_data SET status = 'Inactive', timestamp = %s
  WHERE unique_key = %s AND status != 'Inactive'\<close>, and its \<^verbatim>\<open>rowcount\<close>.\<close>

definition sql_update_status :: "string \<Rightarrow> string \<Rightarrow> row list \<Rightarrow> row list" where
  "sql_update_status now unique_key rows =
     map (\<lambda>r. if row_unique_key r = unique_key \<and> sql_not_inactive (row_status r)
               then r\<lparr>row_status := PStr ''Inactive'', row_timestamp := now\<rparr> else r) rows"

definition rowcount_update_status :: "string \<Rightarrow> row list \<Rightarrow> nat" where
  "rowcount_update_status unique_key rows =
     length (filter (\<lambda>r. row_unique_key r = unique_key \<and> sql_not_inactive (row_status r)) rows)"

text \<open>The body of the loop of \<^verbatim>\<open>mark_records_as_inactive\<close>.\<close>

definition mark_inactive :: "string \<Rightarrow> cursor \<Rightarrow> string \<Rightarrow> cursor" where
  "mark_inactive now cur unique_key =
     (case fetchone (active_student_data cur) unique_key of
        None \<Rightarrow> cur
      | Some r \<Rightarrow>
          (let current_status = row_status r
           in if current_status \<noteq> PStr ''Inactive''
              then (if rowcount_update_status unique_key (active_student_data cur) > 0
                    then log_history now
                           (cur\<lparr>active_student_data :=
                                  sql_update_status now unique_key (active_student_data cur),
                                writes := writes cur @ [Inactivated unique_key]\<rparr>)
                           unique_key INACTIVATE (PStr ''status'') current_status (PStr ''Inactive'')
                    else cur)
              else cur))"

text \<open>
  \<^verbatim>\<open>inactive_keys = existing_keys - api_keys\<close> is a Python set, which the loop visits in an
  order of its own: \<open>visit\<close> is that order, any rearrangement of the list it is given.
\<close>

definition mark_records_as_inactive ::
  "(string list \<Rightarrow> string list) \<Rightarrow> string \<Rightarrow> cursor \<Rightarrow> string list \<Rightarrow> string set \<Rightarrow> cursor" where
  "mark_records_as_inactive visit now cur existing_keys api_keys =
     (let inactive_keys = filter (\<lambda>k. k \<notin> api_keys) existing_keys
      in if inactive_keys = [] then cur
         else foldl (mark_inactive now) cur (visit inactive_keys))"

section \<open>The reconciliation pass of main.py\<close>

record run_state =
  db :: cursor
  existing_keys :: "string list"
  processed_api_keys :: "string set"
  new_records_count :: nat
  updated_records_count :: nat
  skipped_invalid_records_count :: nat

text \<open>Lines 93 to 101: every string of the record trimmed, then the four cleaners.\<close>

definition process_fields :: "raw_record \<Rightarrow> py_error + raw_record" where
  "process_fields record =
     (let processed_record = (\<lambda>k. map_option trim_string (record k))
      in case convert_grade_name (dict_get processed_record ''grade_name'') of
           Inl e \<Rightarrow> Inl e
         | Inr g \<Rightarrow>
             (case clean_student_name (dict_get processed_record ''student_name'') of
                Inl e \<Rightarrow> Inl e
              | Inr n \<Rightarrow>
                  (case clean_gender (dict_get processed_record ''gender'') of
                     Inl e \<Rightarrow> Inl e
                   | Inr ge \<Rightarrow>
                       (case extract_division (dict_get processed_record ''division_name'') of
                          Inl e \<Rightarrow> Inl e
                        | Inr d \<Rightarrow>
                            Inr (processed_record(''grade_name'' \<mapsto> g, ''student_name'' \<mapsto> n,
                                   ''gender'' \<mapsto> ge, ''division_name'' \<mapsto> d))))))"

text \<open>The body of the loop over \<^verbatim>\<open>students_data\<close>. An exception of a cleaner is not caught
  and ends the run.\<close>

definition process_record :: "string \<Rightarrow> string \<Rightarrow> run_state \<Rightarrow> raw_record \<Rightarrow> py_error + run_state" where
  "process_record academic_year now st record =
     (case validate_student_record record of
        Inl validation_result \<Rightarrow>
          Inr (st\<lparr>skipped_invalid_records_count := skipped_invalid_records_count st + 1\<rparr>)
      | Inr valid \<Rightarrow>
          (case process_fields record of
             Inl e \<Rightarrow> Inl e
           | Inr processed_record \<Rightarrow>
               (case generate_unique_key processed_record academic_year of
                  Inl e \<Rightarrow> Inl e
                | Inr unique_key \<Rightarrow>
                    (let st1 = st\<lparr>processed_api_keys := insert unique_key (processed_api_keys st)\<rparr>
                     in if unique_key \<notin> set (existing_keys st1)
                        then (case insert_new_record now (db st1) processed_record unique_key academic_year of
                                Inl e \<Rightarrow> Inl e
                              | Inr c \<Rightarrow> Inr (st1\<lparr>db := c, new_records_count := new_records_count st1 + 1\<rparr>))
                        else (case update_existing_record now (db st1) processed_record unique_key of
                                Inl e \<Rightarrow> Inl e
                              | Inr c \<Rightarrow>
                                  Inr (st1\<lparr>db := c,
                                          updated_records_count := updated_records_count st1 + 1,
                                          existing_keys := removeAll unique_key (existing_keys st1)\<rparr>))))))"

fun process_records :: "string \<Rightarrow> string \<Rightarrow> run_state \<Rightarrow> raw_record list \<Rightarrow> py_error + run_state" where
  "process_records academic_year now st [] = Inr st"
| "process_records academic_year now st (record # students_data) =
     (case process_record academic_year now st record of
        Inl e \<Rightarrow> Inl e
      | Inr st' \<Rightarrow> process_records academic_year now st' students_data)"

text \<open>
  \<^verbatim>\<open>main\<close> from the point where the feed has been read: \<open>students_data\<close> is the list under
  \<^verbatim>\<open>'data'\<close>, the academic year and the clock come from \<^verbatim>\<open>datetime.now()\<close>. An empty list
  leaves through \<^verbatim>\<open>sys.exit(0)\<close> before the store is read. The result \<open>Inr st\<close> is the state
  that is committed.
\<close>

definition main ::
  "(string list \<Rightarrow> string list) \<Rightarrow> string \<Rightarrow> string \<Rightarrow> cursor \<Rightarrow> raw_record list \<Rightarrow> py_error + run_state" where
  "main visit academic_year now cur students_data =
     (if students_data = [] then Inl (SystemExit 0)
      else (case process_records academic_year now
                   \<lparr>db = cur, existing_keys = fetch_existing_keys cur academic_year,
                    processed_api_keys = {}, new_records_count = 0, updated_records_count = 0,
                    skipped_invalid_records_count = 0\<rparr> students_data of
              Inl e \<Rightarrow> Inl e
            | Inr st \<Rightarrow>
                Inr (st\<lparr>db := mark_records_as_inactive visit now (db st) (existing_keys st)
                                 (processed_api_keys st)\<rparr>)))"

section \<open>Notions for the statements about a pass\<close>

text \<open>The store keeps the constraint \<^verbatim>\<open>UNIQUE (unique_key)\<close>.\<close>

definition unique_keys :: "cursor \<Rightarrow> bool" where
  "unique_keys cur = distinct (map row_unique_key (active_student_data cur))"

text \<open>A stored row shows no change against a processed record: the loop over
  \<^verbatim>\<open>fields_to_check\<close> finds no field that differs.\<close>

definition unchanged_by :: "row \<Rightarrow> raw_record \<Rightarrow> bool" where
  "unchanged_by r record =
     (case fields_to_check record of
        Inl e \<Rightarrow> False
      | Inr to_check \<Rightarrow> field_changes (record_details r) to_check = [])"

text \<open>A value whose text in the store is its own rendering: \<^verbatim>\<open>None\<close>, a string or an integer,
  but not a boolean. A record has a plain status when its status is such a value.\<close>

fun plain :: "pyval \<Rightarrow> bool" where
  "plain PNone = True"
| "plain (PStr s) = True"
| "plain (PInt i) = True"
| "plain v = False"

definition plain_status :: "raw_record \<Rightarrow> bool" where
  "plain_status record = plain (dict_get record ''status'')"

text \<open>The new values of a processed record are all plain.\<close>

definition plain_fields :: "raw_record \<Rightarrow> bool" where
  "plain_fields record =
     (case fields_to_check record of
        Inl e \<Rightarrow> False
      | Inr to_check \<Rightarrow> list_all plain (map snd to_check))"

text \<open>The key and the processed record of a record that passes the validator and the
  cleaners.\<close>

definition record_key :: "string \<Rightarrow> raw_record \<Rightarrow> (string \<times> raw_record) option" where
  "record_key academic_year record =
     (case validate_student_record record of
        Inl m \<Rightarrow> None
      | Inr valid \<Rightarrow>
          (case process_fields record of
             Inl e \<Rightarrow> None
           | Inr processed_record \<Rightarrow>
               (case generate_unique_key processed_record academic_year of
                  Inl e \<Rightarrow> None
                | Inr unique_key \<Rightarrow> Some (unique_key, processed_record))))"

text \<open>For every key of a batch, the processed record of the first record with that key:
  \<open>note_record\<close> adds one record of the batch, \<open>first_records\<close> a list of them.\<close>

definition note_record :: "string \<Rightarrow> (string \<rightharpoonup> raw_record) \<Rightarrow> raw_record \<Rightarrow> (string \<rightharpoonup> raw_record)" where
  "note_record academic_year m record =
     (case record_key academic_year record of
        None \<Rightarrow> m
      | Some (unique_key, processed_record) \<Rightarrow>
          (if m unique_key = None then m(unique_key \<mapsto> processed_record) else m))"

fun first_records :: "string \<Rightarrow> raw_record list \<Rightarrow> (string \<rightharpoonup> raw_record) \<Rightarrow> (string \<rightharpoonup> raw_record)" where
  "first_records academic_year [] m = m"
| "first_records academic_year (record # students_data) m =
     first_records academic_year students_data (note_record academic_year m record)"

text \<open>A record that the loop handles without an exception: it is rejected by the validator or
  it gets a key.\<close>

definition record_ok :: "string \<Rightarrow> raw_record \<Rightarrow> bool" where
  "record_ok academic_year record =
     (case validate_student_record record of Inl m \<Rightarrow> True | Inr v \<Rightarrow> record_key academic_year record \<noteq> None)"

text \<open>
  The invariant of the loop of \<^verbatim>\<open>main\<close>, where \<open>m\<close> holds the first record of every key seen
  so far: the keys seen are the keys of \<open>m\<close>; \<open>existing_keys\<close> holds the keys of the rows of
  this academic year that were not seen; every key seen has a row, and a row of this academic
  year shows no change against the first record of its key.
\<close>

definition pass_inv :: "string \<Rightarrow> run_state \<Rightarrow> (string \<rightharpoonup> raw_record) \<Rightarrow> bool" where
  "pass_inv ay st m =
     (unique_keys (db st) \<and> processed_api_keys st = dom m
      \<and> set (existing_keys st) =
          {k. m k = None \<and> (\<exists>r. fetchone (active_student_data (db st)) k = Some r \<and> row_academic_year r = ay)}
      \<and> (\<forall>k p. m k = Some p \<longrightarrow>
            (\<exists>r. fetchone (active_student_data (db st)) k = Some r
                  \<and> (row_academic_year r = ay \<longrightarrow> unchanged_by r p))))"

text \<open>The store after a pass over a batch whose first records are \<open>m\<close>: in addition, no row
  of this academic year whose key is not in the batch can still be marked inactive.\<close>

definition settled :: "string \<Rightarrow> cursor \<Rightarrow> (string \<rightharpoonup> raw_record) \<Rightarrow> bool" where
  "settled ay cur m =
     (unique_keys cur
      \<and> (\<forall>k p. m k = Some p \<longrightarrow>
            (\<exists>r. fetchone (active_student_data cur) k = Some r
                  \<and> (row_academic_year r = ay \<longrightarrow> unchanged_by r p)))
      \<and> (\<forall>k r. m k = None \<and> fetchone (active_student_data cur) k = Some r \<and> row_academic_year r = ay
            \<longrightarrow> \<not> sql_not_inactive (row_status r)))"

text \<open>An update of rows that keeps key and academic year and touches rows with a key in \<open>ks\<close>
  only.\<close>

definition preserving :: "(row \<Rightarrow> row) \<Rightarrow> string set \<Rightarrow> bool" where
  "preserving f ks =
     (\<forall>r. row_unique_key (f r) = row_unique_key r \<and> row_academic_year (f r) = row_academic_year r
          \<and> (row_unique_key r \<notin> ks \<longrightarrow> f r = r))"

section \<open>Examples\<close>

text \<open>A record as the feed sends it, the row the pass stores for it (with a given status and
  gender), and a store with given rows and no history.\<close>

definition example_record :: raw_record where
  "example_record =
     [''school_name'' \<mapsto> PStr ''S'', ''status'' \<mapsto> PStr ''Active'', ''grade_name'' \<mapsto> PStr ''GRADE I'',
      ''student_name'' \<mapsto> PStr ''asha  k'', ''student_id'' \<mapsto> PInt 17, ''gender'' \<mapsto> PStr ''Other'',
      ''division_name'' \<mapsto> PStr ''12-A'']"

definition example_row :: "pyval \<Rightarrow> pyval \<Rightarrow> row" where
  "example_row st ge =
     \<lparr>row_school_name = PStr ''S'', row_status = st, row_grade_name = PStr ''GRADE 1'',
      row_student_name = PStr ''Asha K'', row_student_id = PStr ''17'', row_gender = ge,
      row_division_name = PStr ''A'', row_academic_year = ''2024-2025'',
      row_unique_key = ''S_17_2024-2025_GRADE 1'', row_timestamp = ''t0''\<rparr>"

definition example_cursor :: "row list \<Rightarrow> cursor" where
  "example_cursor rows = \<lparr>active_student_data = rows, student_data_history = [], writes = []\<rparr>"

definition example_state :: "cursor \<Rightarrow> run_state" where
  "example_state cur =
     \<lparr>db = cur, existing_keys = fetch_existing_keys cur ''2024-2025'', processed_api_keys = {},
      new_records_count = 0, updated_records_count = 0, skipped_invalid_records_count = 0\<rparr>"

section \<open>Evaluation of the string functions\<close>

lemmas str_eval = upper_def strip_def is_space_def char_upper_def char_lower_def ascii_lowercase_def
  ascii_uppercase_def is_alpha_def is_word_def match_grade_def search_alpha_def table_get_def
  grade_mapping_def roman_to_number_def title_def sub_spaces_def

lemmas int_eval = int_str_def nat_digits.simps digit_char_def

lemmas db_eval = update_existing_record_def get_current_record_details_def record_details_def fetchone_def
  fields_to_check_def field_changes_def log_changes_def log_history_def sql_update_def dict_get_def
  insert_new_record_def mark_records_as_inactive_def mark_inactive_def rowcount_update_status_def
  sql_update_status_def sql_not_inactive_def example_cursor_def example_row_def example_record_def

lemmas pass_eval = main_def process_record_def process_fields_def validate_student_record_def
  required_fields_def missing_or_empty_def generate_unique_key_def dict_get_default_def
  fetch_existing_keys_def

section \<open>Grade labels\<close>

lemma sync_students_convert_grade_name_examples:
  "sync_students_convert_grade_name (PStr ''GRADE iv'') = Inr (PStr ''GRADE 4'')
   \<and> sync_students_convert_grade_name (PStr ''Jr.KG'') = Inr (PStr ''JR.KG'')
   \<and> sync_students_convert_grade_name (PStr ''GRADE XI'') = Inr (PStr ''GRADE XI'')"
  by (simp add: str_eval)

lemma convert_grade_name_grade_examples:
  "convert_grade_name (PStr ''GRADE iv'') = Inr (PStr ''GRADE 4'')
   \<and> convert_grade_name (PStr ''GRADE XI'') = Inr (PStr ''GRADE XI'')"
  by (simp add: str_eval)

text \<open>
  Claim C5, the three examples of grade normalisation. The variant of sync\_students.py
  gives all three results. In utils.py the table is looked up with the upper-cased label, so
  its entry for \<^verbatim>\<open>"Jr.KG"\<close> is never found and \<^verbatim>\<open>convert_grade_name("Jr.KG")\<close> is
  \<^verbatim>\<open>"Jr.KG"\<close>, not \<^verbatim>\<open>"JR.KG"\<close>; in active\_student\_data\_yearly.py the pattern is matched
  with the case as given, so \<^verbatim>\<open>"GRADE iv"\<close> stays \<^verbatim>\<open>"GRADE iv"\<close>.
\<close>

theorem convert_grade_name_jr_kg:
  "convert_grade_name (PStr ''Jr.KG'') = Inr (PStr ''Jr.KG'')
   \<and> convert_grade_name (PStr ''Jr.KG'') \<noteq> Inr (PStr ''JR.KG'')
   \<and> yearly_convert_grade_name (PStr ''GRADE iv'') = Inr (PStr ''GRADE iv'')
   \<and> yearly_convert_grade_name (PStr ''GRADE iv'') \<noteq> Inr (PStr ''GRADE 4'')"
  by (simp add: str_eval)

section \<open>Gender\<close>




section \<open>The unique key\<close>

lemma sync_students_generate_unique_key_ignores_grade:
  "sync_students_generate_unique_key (record(''grade_name'' := g)) = sync_students_generate_unique_key record"
  by (simp add: sync_students_generate_unique_key_def Let_def split: option.split pyval.split)

text \<open>
  Claim C1, stability of the key under a change of grade. The key of sync\_students.py does
  not read \<^verbatim>\<open>grade_name\<close> (lemma above). The key of utils.py, the one main.py uses, ends in
  the converted grade: two records that differ in \<^verbatim>\<open>grade_name\<close> only get two keys.
\<close>

theorem generate_unique_key_depends_on_grade:
  "generate_unique_key [''school_name'' \<mapsto> PStr ''S'', ''student_id'' \<mapsto> PStr ''17'',
                        ''grade_name'' \<mapsto> PStr ''GRADE I''] ''2024-2025''
     = Inr ''S_17_2024-2025_GRADE 1''
   \<and> generate_unique_key [''school_name'' \<mapsto> PStr ''S'', ''student_id'' \<mapsto> PStr ''17'',
                          ''grade_name'' \<mapsto> PStr ''GRADE II''] ''2024-2025''
     = Inr ''S_17_2024-2025_GRADE 2''"
  by (simp add: generate_unique_key_def dict_get_default_def str_eval)

section \<open>Totality of the cleaners\<close>

lemma strptime_dmy_examples:
  "strptime_dmy ''05/03/2021'' = Some (2021, 3, 5)
   \<and> strftime_ymd (2021, 3, 5) = ''2021-03-05''
   \<and> strptime_dmy ''31/02/2021'' = None
   \<and> strptime_dmy ''2021-03-05'' = None
   \<and> strptime_dmy ''29/2/2024'' = Some (2024, 2, 29)
   \<and> strptime_dmy '' 5/3/2021'' = Some (2021, 3, 5)
   \<and> strptime_dmy ''5/3/20211'' = None"
  by (simp add: strptime_dmy_def digit_of_def days_in_month_def zero_pad_def nat_digits.simps digit_char_def)








section \<open>The validator\<close>

lemma find_first:
  "x \<in> set xs \<Longrightarrow> P x \<Longrightarrow> (\<forall>y \<in> set (takeWhile (\<lambda>y. y \<noteq> x) xs). \<not> P y) \<Longrightarrow> find P xs = Some x"
proof (induction xs)
  case Nil
  then show ?case by simp
next
  case (Cons a xs)
  then show ?case by (cases "a = x") auto
qed

lemma find_some:
  assumes "x \<in> set xs" "P x"
  shows "\<exists>y. find P xs = Some y \<and> y \<in> set xs \<and> P y"
  using assms by (induction xs) auto

lemma validate_missing:
  assumes "field \<in> set required_fields" "missing_or_empty record field"
  shows "\<exists>f. validate_student_record record = Inl (missing_message f) \<and> f \<in> set required_fields
              \<and> missing_or_empty record f"
proof -
  from find_some [of field required_fields "missing_or_empty record", OF assms]
  obtain y where "find (missing_or_empty record) required_fields = Some y" "y \<in> set required_fields"
    "missing_or_empty record y" by blast
  then show ?thesis by (auto simp: validate_student_record_def)
qed

lemma validate_missing_first:
  assumes "field \<in> set required_fields" "missing_or_empty record field"
    "\<forall>g \<in> set (takeWhile (\<lambda>g. g \<noteq> field) required_fields). \<not> missing_or_empty record g"
  shows "validate_student_record record = Inl (missing_message field)"
  using find_first [of field required_fields "missing_or_empty record", OF assms]
  by (simp add: validate_student_record_def)

lemma validate_accepts:
  assumes "validate_student_record record = Inr r'"
  shows "r' = record \<and> (\<forall>f \<in> set required_fields. \<not> missing_or_empty record f)
         \<and> is_str_or_int (dict_get record ''student_id'')"
  using assms
  by (auto simp: validate_student_record_def find_None_iff split: option.splits if_splits)

lemma truthy_trim: "truthy (trim_string v) \<Longrightarrow> truthy v"
  by (cases v) (auto simp: strip_def)

lemma process_record_invalid:
  "validate_student_record record = Inl m \<Longrightarrow>
   process_record ay now st record = Inr (st\<lparr>skipped_invalid_records_count := skipped_invalid_records_count st + 1\<rparr>)"
  by (simp add: process_record_def)

text \<open>
  Claim C7, rejection by the validator. When a required field is missing or is a string that
  trims to the empty string, \<^verbatim>\<open>validate_student_record\<close> fails with the message that names
  the first required field that is missing or empty, which is that field whenever no required
  field before it fails too; the loop adds one to the count of skipped records and leaves the
  set of keys, the store with its history, and the other counts as they were.
\<close>

theorem validation_rejection:
  assumes "field \<in> set required_fields"
    and "record field = None \<or> (\<exists>s. record field = Some (PStr s) \<and> strip s = [])"
  shows "(\<exists>f. validate_student_record record = Inl (missing_message f) \<and> f \<in> set required_fields
              \<and> missing_or_empty record f)
         \<and> ((\<forall>g \<in> set (takeWhile (\<lambda>g. g \<noteq> field) required_fields). \<not> missing_or_empty record g)
               \<longrightarrow> validate_student_record record = Inl (missing_message field))
         \<and> (\<exists>st'. process_record academic_year now st record = Inr st'
               \<and> skipped_invalid_records_count st' = skipped_invalid_records_count st + 1
               \<and> processed_api_keys st' = processed_api_keys st
               \<and> db st' = db st \<and> existing_keys st' = existing_keys st
               \<and> new_records_count st' = new_records_count st
               \<and> updated_records_count st' = updated_records_count st)"
proof -
  from assms(2) have bad: "missing_or_empty record field"
    by (auto simp: missing_or_empty_def)
  from validate_missing [OF assms(1) bad] obtain f where
    f: "validate_student_record record = Inl (missing_message f)" "f \<in> set required_fields"
       "missing_or_empty record f" by blast
  have first: "(\<forall>g \<in> set (takeWhile (\<lambda>g. g \<noteq> field) required_fields). \<not> missing_or_empty record g)
               \<longrightarrow> validate_student_record record = Inl (missing_message field)"
    using validate_missing_first [OF assms(1) bad] by blast
  have step: "process_record academic_year now st record =
      Inr (st\<lparr>skipped_invalid_records_count := skipped_invalid_records_count st + 1\<rparr>)"
    using f(1) by (rule process_record_invalid)
  from f first step show ?thesis by auto
qed

theorem validation_rejection_witness:
  "''student_id'' \<in> set required_fields
   \<and> (example_record(''student_id'' := None)) ''student_id'' = None
   \<and> validate_student_record (example_record(''student_id'' := None)) = Inl (missing_message ''student_id'')
   \<and> (\<exists>st'. process_record ''2024-2025'' ''t1'' (example_state (example_cursor []))
                  (example_record(''student_id'' := None)) = Inr st'
             \<and> skipped_invalid_records_count st' = 1 \<and> processed_api_keys st' = {}
             \<and> db st' = example_cursor [])"
proof -
  have a: "''student_id'' \<in> set required_fields" by (simp add: required_fields_def)
  have b: "(example_record(''student_id'' := None)) ''student_id'' = None
            \<or> (\<exists>s. (example_record(''student_id'' := None)) ''student_id'' = Some (PStr s) \<and> strip s = [])"
    by simp
  have c: "\<forall>g \<in> set (takeWhile (\<lambda>g. g \<noteq> ''student_id'') required_fields).
             \<not> missing_or_empty (example_record(''student_id'' := None)) g"
    by (simp add: required_fields_def missing_or_empty_def example_record_def str_eval)
  from validation_rejection [of "''student_id''" "example_record(''student_id'' := None)"
         "''2024-2025''" "''t1''" "example_state (example_cursor [])"] a b c
  have "validate_student_record (example_record(''student_id'' := None)) = Inl (missing_message ''student_id'')
        \<and> (\<exists>st'. process_record ''2024-2025'' ''t1'' (example_state (example_cursor []))
                  (example_record(''student_id'' := None)) = Inr st'
             \<and> skipped_invalid_records_count st' = skipped_invalid_records_count (example_state (example_cursor [])) + 1
             \<and> processed_api_keys st' = processed_api_keys (example_state (example_cursor []))
             \<and> db st' = db (example_state (example_cursor [])))"
    by blast
  with a show ?thesis by (simp add: example_state_def)
qed

text \<open>
  Claim C10, false values that are not strings. \<^verbatim>\<open>trim_string\<close> returns such a value as it
  is, so a required field that holds one (the integer 0, \<^verbatim>\<open>None\<close>, \<^verbatim>\<open>False\<close>) is rejected with
  the missing-or-empty message, naming the first required field that fails, which is that field
  whenever no required field before it fails too. Hence a record that the validator accepts has
  a true value in each of the seven required fields.
\<close>

theorem validate_rejects_falsy:
  "(field \<in> set required_fields \<and> record field = Some v \<and> \<not> is_str v \<and> \<not> truthy v \<longrightarrow>
      trim_string v = v
      \<and> (\<exists>f. validate_student_record record = Inl (missing_message f) \<and> f \<in> set required_fields
               \<and> missing_or_empty record f)
      \<and> ((\<forall>g \<in> set (takeWhile (\<lambda>g. g \<noteq> field) required_fields). \<not> missing_or_empty record g)
            \<longrightarrow> validate_student_record record = Inl (missing_message field)))
   \<and> (validate_student_record record = Inr accepted \<longrightarrow>
        (\<forall>f \<in> set required_fields. \<exists>w. record f = Some w \<and> truthy w))"
proof -
  have rej: "trim_string v = v
      \<and> (\<exists>f. validate_student_record record = Inl (missing_message f) \<and> f \<in> set required_fields
               \<and> missing_or_empty record f)
      \<and> ((\<forall>g \<in> set (takeWhile (\<lambda>g. g \<noteq> field) required_fields). \<not> missing_or_empty record g)
            \<longrightarrow> validate_student_record record = Inl (missing_message field))"
    if h: "field \<in> set required_fields" "record field = Some v" "\<not> is_str v" "\<not> truthy v"
  proof -
    from h(3) have tv: "trim_string v = v" by (cases v) simp_all
    with h(2,4) have bad: "missing_or_empty record field" by (simp add: missing_or_empty_def)
    from tv validate_missing [OF h(1) bad] validate_missing_first [OF h(1) bad] show ?thesis by blast
  qed
  have acc: "\<forall>f \<in> set required_fields. \<exists>w. record f = Some w \<and> truthy w"
    if "validate_student_record record = Inr accepted"
  proof
    fix f assume "f \<in> set required_fields"
    with validate_accepts [OF that] have "\<not> missing_or_empty record f" by blast
    then show "\<exists>w. record f = Some w \<and> truthy w"
      by (auto simp: missing_or_empty_def dest: truthy_trim split: option.splits)
  qed
  from rej acc show ?thesis by blast
qed

lemma example_valid: "validate_student_record example_record = Inr example_record"
  by (simp add: validate_student_record_def required_fields_def missing_or_empty_def example_record_def
      dict_get_def str_eval)

theorem validate_rejects_falsy_witness:
  "validate_student_record (example_record(''student_id'' \<mapsto> PInt 0)) = Inl (missing_message ''student_id'')
   \<and> validate_student_record example_record = Inr example_record
   \<and> (\<exists>w. example_record ''student_id'' = Some w \<and> truthy w)
   \<and> (\<exists>w. example_record ''gender'' = Some w \<and> truthy w)"
proof -
  let ?r = "example_record(''student_id'' \<mapsto> PInt 0)"
  have h: "''student_id'' \<in> set required_fields \<and> ?r ''student_id'' = Some (PInt 0)
           \<and> \<not> is_str (PInt 0) \<and> \<not> truthy (PInt 0)"
    by (simp add: required_fields_def)
  have c: "\<forall>g \<in> set (takeWhile (\<lambda>g. g \<noteq> ''student_id'') required_fields). \<not> missing_or_empty ?r g"
    by (simp add: required_fields_def missing_or_empty_def example_record_def str_eval)
  from validate_rejects_falsy [of "''student_id''" ?r "PInt 0" ?r] h c
  have 1: "validate_student_record ?r = Inl (missing_message ''student_id'')" by blast
  from validate_rejects_falsy [of "''student_id''" example_record "PInt 17" example_record] example_valid
  have 2: "\<forall>f \<in> set required_fields. \<exists>w. example_record f = Some w \<and> truthy w" by blast
  have 3: "''student_id'' \<in> set required_fields" "''gender'' \<in> set required_fields"
    by (simp_all add: required_fields_def)
  from 2 3 have "(\<exists>w. example_record ''student_id'' = Some w \<and> truthy w)
                 \<and> (\<exists>w. example_record ''gender'' = Some w \<and> truthy w)" by blast
  with 1 example_valid show ?thesis by blast
qed

section \<open>Rows and keys of the store\<close>

lemma fetchone_map:
  assumes "\<And>r. row_unique_key (f r) = row_unique_key r"
  shows "fetchone (map f rows) k = map_option f (fetchone rows k)"
  using assms by (induction rows) (auto simp: fetchone_def)

lemma fetchone_append:
  "fetchone (rows @ [r]) k =
     (case fetchone rows k of Some x \<Rightarrow> Some x | None \<Rightarrow> if row_unique_key r = k then Some r else None)"
  by (induction rows) (auto simp: fetchone_def)

lemma fetchone_None_iff: "fetchone rows k = None \<longleftrightarrow> k \<notin> set (map row_unique_key rows)"
  by (induction rows) (auto simp: fetchone_def)

lemma fetchone_Some_key: "fetchone rows k = Some r \<Longrightarrow> row_unique_key r = k \<and> r \<in> set rows"
  by (induction rows) (auto simp: fetchone_def split: if_splits)

lemma fetchone_distinct:
  "distinct (map row_unique_key rows) \<Longrightarrow> r \<in> set rows \<Longrightarrow> fetchone rows (row_unique_key r) = Some r"
proof (induction rows)
  case Nil
  then show ?case by simp
next
  case (Cons a rows)
  then show ?case by (cases "a = r") (auto simp: fetchone_def)
qed

lemma existing_keys_iff:
  assumes "unique_keys cur"
  shows "k \<in> set (fetch_existing_keys cur ay) \<longleftrightarrow>
         (\<exists>r. fetchone (active_student_data cur) k = Some r \<and> row_academic_year r = ay)"
proof
  assume "k \<in> set (fetch_existing_keys cur ay)"
  then obtain r where r: "r \<in> set (active_student_data cur)" "row_academic_year r = ay" "row_unique_key r = k"
    by (auto simp: fetch_existing_keys_def)
  with assms fetchone_distinct [of "active_student_data cur" r]
  show "\<exists>r. fetchone (active_student_data cur) k = Some r \<and> row_academic_year r = ay"
    by (auto simp: unique_keys_def)
next
  assume "\<exists>r. fetchone (active_student_data cur) k = Some r \<and> row_academic_year r = ay"
  then obtain r where "fetchone (active_student_data cur) k = Some r" "row_academic_year r = ay" by blast
  with fetchone_Some_key [of "active_student_data cur" k r]
  show "k \<in> set (fetch_existing_keys cur ay)"
    by (force simp: fetch_existing_keys_def)
qed

lemma log_history_table [simp]:
  "active_student_data (log_history now cur k ct f old new) = active_student_data cur"
  "writes (log_history now cur k ct f old new) = writes cur"
  by (simp_all add: log_history_def)

lemma log_changes_table [simp]:
  "active_student_data (log_changes now k cur changes) = active_student_data cur"
  "writes (log_changes now k cur changes) = writes cur"
  unfolding log_changes_def
  by (induction changes arbitrary: cur) (auto split: prod.splits)

lemma log_changes_Nil [simp]: "log_changes now k cur [] = cur"
  by (simp add: log_changes_def)

lemma fields_to_check_form:
  assumes "fields_to_check p = Inr tc"
  shows "\<exists>b c e. convert_grade_name (dict_get p ''grade_name'') = Inr b
           \<and> clean_student_name (dict_get p ''student_name'') = Inr c
           \<and> extract_division (dict_get p ''division_name'') = Inr e
           \<and> tc = [(''status'', trim_string (dict_get p ''status'')), (''grade_name'', b),
                   (''student_name'', c), (''gender'', dict_get p ''gender''), (''division_name'', e)]"
  using assms by (auto simp: fields_to_check_def Let_def split: sum.splits)

lemma py_str_sql_text: "plain v \<Longrightarrow> py_str (sql_text v) = py_str v"
  by (cases v) simp_all

lemma plain_trim_string [simp]: "plain (trim_string v) = plain v"
  by (cases v) simp_all

lemma field_changes_same:
  assumes "tc = [(''status'', a), (''grade_name'', b), (''student_name'', c), (''gender'', d), (''division_name'', e)]"
    and "row_status r = sql_text a" "row_grade_name r = sql_text b" "row_student_name r = sql_text c"
        "row_gender r = sql_text d" "row_division_name r = sql_text e"
    and "plain a" "plain b" "plain c" "plain d" "plain e"
  shows "field_changes (record_details r) tc = []"
  using assms by (simp add: field_changes_def record_details_def dict_get_def py_str_sql_text)

lemma update_existing_record_noop:
  assumes "fetchone (active_student_data cur) k = Some r" "unchanged_by r p"
  shows "update_existing_record now cur p k = Inr cur"
  using assms
  by (auto simp: update_existing_record_def get_current_record_details_def unchanged_by_def Let_def
      split: sum.splits)

lemma update_existing_record_absent:
  assumes "fetchone (active_student_data cur) k = None"
  shows "update_existing_record now cur p k = Inr cur"
  using assms by (simp add: update_existing_record_def get_current_record_details_def)

lemma sql_update_key [simp]:
  "map row_unique_key (sql_update now k new rows) = map row_unique_key rows"
  by (induction rows) (auto simp: sql_update_def)

lemma update_existing_record_spec:
  assumes "update_existing_record now cur p k = Inr cur'" "fetchone (active_student_data cur) k = Some r"
    and pl: "plain_fields p"
  shows "(\<exists>r'. fetchone (active_student_data cur') k = Some r' \<and> unchanged_by r' p
               \<and> row_academic_year r' = row_academic_year r)
         \<and> (\<forall>k'. k' \<noteq> k \<longrightarrow> fetchone (active_student_data cur') k' = fetchone (active_student_data cur) k')
         \<and> map row_unique_key (active_student_data cur') = map row_unique_key (active_student_data cur)"
proof -
  from assms obtain tc where tc: "fields_to_check p = Inr tc"
    by (auto simp: update_existing_record_def get_current_record_details_def split: sum.splits)
  show ?thesis
  proof (cases "field_changes (record_details r) tc = []")
    case True
    with tc assms(2) have "unchanged_by r p" by (simp add: unchanged_by_def)
    moreover from this assms have "cur' = cur" by (simp add: update_existing_record_noop)
    ultimately show ?thesis using assms(2) by simp
  next
    case False
    let ?f = "\<lambda>r. if row_unique_key r = k
               then r\<lparr>row_status := sql_text (dict_get (map_of tc) ''status''),
                      row_grade_name := sql_text (dict_get (map_of tc) ''grade_name''),
                      row_student_name := sql_text (dict_get (map_of tc) ''student_name''),
                      row_gender := sql_text (dict_get (map_of tc) ''gender''),
                      row_division_name := sql_text (dict_get (map_of tc) ''division_name''),
                      row_timestamp := now\<rparr>
               else r"
    from False tc assms have tab: "active_student_data cur' = map ?f (active_student_data cur)"
      by (auto simp: update_existing_record_def get_current_record_details_def Let_def sql_update_def)
    have keyf: "\<And>x. row_unique_key (?f x) = row_unique_key x" by simp
    have look: "\<And>k'. fetchone (active_student_data cur') k' = map_option ?f (fetchone (active_student_data cur) k')"
      unfolding tab by (rule fetchone_map) simp
    from fetchone_Some_key [OF assms(2)] have rk: "row_unique_key r = k" by simp
    from fields_to_check_form [OF tc] obtain b c e where
      form: "tc = [(''status'', trim_string (dict_get p ''status'')), (''grade_name'', b),
                   (''student_name'', c), (''gender'', dict_get p ''gender''), (''division_name'', e)]"
      by blast
    from pl tc form have pls: "plain (trim_string (dict_get p ''status''))" "plain b" "plain c"
      "plain (dict_get p ''gender'')" "plain e"
      by (simp_all add: plain_fields_def)
    have "field_changes (record_details (?f r)) tc = []"
      by (rule field_changes_same [OF form _ _ _ _ _ pls]) (simp_all add: rk form dict_get_def)
    with tc have u: "unchanged_by (?f r) p" by (simp add: unchanged_by_def)
    have 1: "\<exists>r'. fetchone (active_student_data cur') k = Some r' \<and> unchanged_by r' p
               \<and> row_academic_year r' = row_academic_year r"
      using look [of k] assms(2) u rk by auto
    have 2: "\<forall>k'. k' \<noteq> k \<longrightarrow> fetchone (active_student_data cur') k' = fetchone (active_student_data cur) k'"
    proof (intro allI impI)
      fix k' assume "k' \<noteq> k"
      show "fetchone (active_student_data cur') k' = fetchone (active_student_data cur) k'"
      proof (cases "fetchone (active_student_data cur) k'")
        case None
        then show ?thesis using look [of k'] by simp
      next
        case (Some x)
        with fetchone_Some_key [OF Some] \<open>k' \<noteq> k\<close> show ?thesis using look [of k'] by simp
      qed
    qed
    have 3: "map row_unique_key (active_student_data cur') = map row_unique_key (active_student_data cur)"
      unfolding tab by (simp add: comp_def)
    from 1 2 3 show ?thesis by blast
  qed
qed

section \<open>Inserting and marking inactive\<close>

lemma cleaner_results:
  "convert_grade_name v = Inr g \<Longrightarrow> \<exists>s. g = PStr s"
  "clean_student_name v = Inr n \<Longrightarrow> \<exists>s. n = PStr s"
  "extract_division v = Inr d \<Longrightarrow> d = PNone \<or> (\<exists>s. d = PStr s)"
  by (cases v; auto simp: Let_def split: option.splits if_splits)+

lemma cleaners_again:
  "convert_grade_name v = Inr g \<Longrightarrow> \<exists>g'. convert_grade_name g = Inr g'"
  "clean_student_name v = Inr n \<Longrightarrow> \<exists>n'. clean_student_name n = Inr n'"
  "extract_division v = Inr d \<Longrightarrow> \<exists>d'. extract_division d = Inr d'"
proof -
  show "convert_grade_name v = Inr g \<Longrightarrow> \<exists>g'. convert_grade_name g = Inr g'"
    using cleaner_results(1) [of v g] by (auto simp: Let_def split: option.splits)
  show "clean_student_name v = Inr n \<Longrightarrow> \<exists>n'. clean_student_name n = Inr n'"
    using cleaner_results(2) [of v n] by auto
  show "extract_division v = Inr d \<Longrightarrow> \<exists>d'. extract_division d = Inr d'"
    using cleaner_results(3) [of v d] by (auto split: option.splits)
qed

lemma process_fields_checked:
  assumes "process_fields record = Inr p"
  shows "\<exists>tc. fields_to_check p = Inr tc"
proof -
  from assms obtain g n ge d where
    g: "convert_grade_name (dict_get (\<lambda>k. map_option trim_string (record k)) ''grade_name'') = Inr g"
    and n: "clean_student_name (dict_get (\<lambda>k. map_option trim_string (record k)) ''student_name'') = Inr n"
    and d: "extract_division (dict_get (\<lambda>k. map_option trim_string (record k)) ''division_name'') = Inr d"
    and p: "p = (\<lambda>k. map_option trim_string (record k))(''grade_name'' \<mapsto> g, ''student_name'' \<mapsto> n,
                   ''gender'' \<mapsto> ge, ''division_name'' \<mapsto> d)"
    by (auto simp: process_fields_def Let_def split: sum.splits)
  from cleaners_again(1) [OF g] obtain g' where g': "convert_grade_name g = Inr g'" by blast
  from cleaners_again(2) [OF n] obtain n' where n': "clean_student_name n = Inr n'" by blast
  from cleaners_again(3) [OF d] obtain d' where d': "extract_division d = Inr d'" by blast
  have "dict_get p ''grade_name'' = g" "dict_get p ''student_name'' = n" "dict_get p ''division_name'' = d"
    by (simp_all add: p dict_get_def)
  with g' n' d' show ?thesis by (simp add: fields_to_check_def)
qed

lemma insert_new_record_present:
  assumes "fetchone (active_student_data cur) k = Some r" "fields_to_check p = Inr tc"
  shows "insert_new_record now cur p k ay = Inr cur"
  using assms fields_to_check_form [OF assms(2)]
  by (auto simp: insert_new_record_def Let_def)

lemma insert_new_record_absent:
  assumes "fetchone (active_student_data cur) k = None" "fields_to_check p = Inr tc"
  shows "\<exists>r. insert_new_record now cur p k ay =
               Inr \<lparr>active_student_data = active_student_data cur @ [r],
                    student_data_history = student_data_history cur @
                      [\<lparr>h_unique_key = k, h_change_type = INSERT, h_field_changed = PStr ''New Record'',
                        h_old_value = PNone, h_new_value = PStr ''Initial Insertion'',
                        h_change_timestamp = now\<rparr>],
                    writes = writes cur @ [Inserted k]\<rparr>
             \<and> row_unique_key r = k \<and> row_academic_year r = ay \<and> (plain_fields p \<longrightarrow> unchanged_by r p)"
proof -
  from fields_to_check_form [OF assms(2)] obtain b c e where
    b: "convert_grade_name (dict_get p ''grade_name'') = Inr b"
    and c: "clean_student_name (dict_get p ''student_name'') = Inr c"
    and e: "extract_division (dict_get p ''division_name'') = Inr e"
    and form: "tc = [(''status'', trim_string (dict_get p ''status'')), (''grade_name'', b),
                   (''student_name'', c), (''gender'', dict_get p ''gender''), (''division_name'', e)]"
    by blast
  let ?r = "\<lparr>row_school_name = sql_text (trim_string (dict_get p ''school_name'')),
             row_status = sql_text (trim_string (dict_get p ''status'')), row_grade_name = sql_text b,
             row_student_name = sql_text c,
             row_student_id = sql_text (trim_string (dict_get p ''student_id'')),
             row_gender = sql_text (dict_get p ''gender''), row_division_name = sql_text e,
             row_academic_year = ay, row_unique_key = k, row_timestamp = now\<rparr>"
  have "plain_fields p \<longrightarrow> unchanged_by ?r p"
  proof
    assume "plain_fields p"
    with assms(2) form have pls: "plain (trim_string (dict_get p ''status''))" "plain b" "plain c"
      "plain (dict_get p ''gender'')" "plain e"
      by (simp_all add: plain_fields_def)
    have "field_changes (record_details ?r) tc = []"
      by (rule field_changes_same [OF form _ _ _ _ _ pls]) simp_all
    with assms(2) show "unchanged_by ?r p" by (simp add: unchanged_by_def)
  qed
  moreover have "insert_new_record now cur p k ay =
               Inr \<lparr>active_student_data = active_student_data cur @ [?r],
                    student_data_history = student_data_history cur @
                      [\<lparr>h_unique_key = k, h_change_type = INSERT, h_field_changed = PStr ''New Record'',
                        h_old_value = PNone, h_new_value = PStr ''Initial Insertion'',
                        h_change_timestamp = now\<rparr>],
                    writes = writes cur @ [Inserted k]\<rparr>"
    using assms(1) b c e by (simp add: insert_new_record_def Let_def log_history_def)
  ultimately show ?thesis by (intro exI [of _ ?r]) simp
qed

lemma insert_new_record_fields:
  assumes "insert_new_record now cur p k ay = Inr cur'"
  shows "\<exists>tc. fields_to_check p = Inr tc"
  using assms by (auto simp: insert_new_record_def fields_to_check_def Let_def split: sum.splits)

lemma sql_update_status_key [simp]:
  "map row_unique_key (sql_update_status now k rows) = map row_unique_key rows"
  by (induction rows) (auto simp: sql_update_status_def)

lemma mark_inactive_shape:
  "\<exists>f. preserving f {k} \<and> active_student_data (mark_inactive now cur k) = map f (active_student_data cur)"
proof (cases "mark_inactive now cur k = cur")
  case True
  then show ?thesis by (intro exI [of _ "\<lambda>r. r"]) (simp add: preserving_def)
next
  case False
  let ?f = "\<lambda>r. if row_unique_key r = k \<and> sql_not_inactive (row_status r)
               then r\<lparr>row_status := PStr ''Inactive'', row_timestamp := now\<rparr> else r"
  from False have "active_student_data (mark_inactive now cur k) = map ?f (active_student_data cur)"
    by (auto simp: mark_inactive_def Let_def sql_update_status_def split: option.splits if_splits)
  moreover have "preserving ?f {k}" by (simp add: preserving_def)
  ultimately show ?thesis by blast
qed

lemma preserving_fetchone:
  assumes "preserving f ks"
  shows "fetchone (map f rows) k = map_option f (fetchone rows k)"
  using assms by (intro fetchone_map) (simp add: preserving_def)

lemma preserving_other:
  assumes "preserving f ks" "k \<notin> ks"
  shows "fetchone (map f rows) k = fetchone rows k"
proof (cases "fetchone rows k")
  case None
  then show ?thesis using preserving_fetchone [OF assms(1), of rows k] by simp
next
  case (Some r)
  from fetchone_Some_key [OF Some] assms have "f r = r" by (simp add: preserving_def)
  with Some show ?thesis using preserving_fetchone [OF assms(1), of rows k] by simp
qed

lemma preserving_comp:
  assumes "preserving f A" "preserving g B"
  shows "preserving (g \<circ> f) (A \<union> B)"
  using assms by (simp add: preserving_def)

lemma mark_inactive_post:
  assumes "fetchone (active_student_data cur) k = Some r"
  shows "\<exists>r'. fetchone (active_student_data (mark_inactive now cur k)) k = Some r'
               \<and> \<not> sql_not_inactive (row_status r')"
proof -
  from fetchone_Some_key [OF assms] have rk: "row_unique_key r = k" "r \<in> set (active_student_data cur)" by simp_all
  show ?thesis
  proof (cases "row_status r = PStr ''Inactive''")
    case True
    with assms show ?thesis by (simp add: mark_inactive_def sql_not_inactive_def)
  next
    case False
    show ?thesis
    proof (cases "rowcount_update_status k (active_student_data cur) > 0")
      case True
      let ?f = "\<lambda>r. if row_unique_key r = k \<and> sql_not_inactive (row_status r)
               then r\<lparr>row_status := PStr ''Inactive'', row_timestamp := now\<rparr> else r"
      from True False assms
      have "active_student_data (mark_inactive now cur k) = map ?f (active_student_data cur)"
        by (simp add: mark_inactive_def Let_def sql_update_status_def)
      then have "fetchone (active_student_data (mark_inactive now cur k)) k = Some (?f r)"
        using fetchone_map [of ?f "active_student_data cur" k] assms by simp
      moreover have "\<not> sql_not_inactive (row_status (?f r))" using rk by (simp add: sql_not_inactive_def)
      ultimately show ?thesis by blast
    next
      case no: False
      then have "filter (\<lambda>r. row_unique_key r = k \<and> sql_not_inactive (row_status r)) (active_student_data cur) = []"
        by (simp add: rowcount_update_status_def)
      then have "\<forall>x \<in> set (active_student_data cur). \<not> (row_unique_key x = k \<and> sql_not_inactive (row_status x))"
        by (simp only: filter_empty_conv)
      with rk have "\<not> sql_not_inactive (row_status r)" by blast
      moreover from no False assms have "mark_inactive now cur k = cur" by (simp add: mark_inactive_def)
      ultimately show ?thesis using assms by simp
    qed
  qed
qed

lemma mark_inactive_noop:
  assumes "unique_keys cur" "\<forall>r. fetchone (active_student_data cur) k = Some r \<longrightarrow> \<not> sql_not_inactive (row_status r)"
  shows "mark_inactive now cur k = cur"
proof (cases "fetchone (active_student_data cur) k")
  case None
  then show ?thesis by (simp add: mark_inactive_def)
next
  case (Some r)
  with assms(2) have nr: "\<not> sql_not_inactive (row_status r)" by simp
  have "\<And>x. x \<in> set (active_student_data cur) \<Longrightarrow> row_unique_key x = k \<Longrightarrow> x = r"
  proof -
    fix x assume "x \<in> set (active_student_data cur)" "row_unique_key x = k"
    with assms(1) fetchone_distinct [of "active_student_data cur" x] Some show "x = r"
      by (simp add: unique_keys_def)
  qed
  with nr have "rowcount_update_status k (active_student_data cur) = 0"
    by (auto simp: rowcount_update_status_def filter_empty_conv)
  with Some show ?thesis by (simp add: mark_inactive_def Let_def)
qed

lemma mark_inactive_unique:
  "unique_keys cur \<Longrightarrow> unique_keys (mark_inactive now cur k)"
  by (auto simp: unique_keys_def mark_inactive_def Let_def log_history_def split: option.splits)

section \<open>The sweep over the keys that are gone\<close>

lemma first_records_step: "first_records ay (r # rs) m = first_records ay rs (note_record ay m r)"
  by simp

lemma first_records_keeps: "m k = Some p \<Longrightarrow> first_records ay rs m k = Some p"
proof (induction rs arbitrary: m)
  case Nil
  then show ?case by simp
next
  case (Cons r rs)
  have "note_record ay m r k = Some p"
    using Cons.prems by (auto simp: note_record_def split: option.splits)
  from Cons.IH [of "note_record ay m r", OF this] show ?case by (simp only: first_records_step)
qed

lemma sweep_shape:
  "\<exists>f. preserving f (set ks) \<and>
       active_student_data (foldl (mark_inactive now) cur ks) = map f (active_student_data cur)"
proof (induction ks arbitrary: cur)
  case Nil
  show ?case by (intro exI [of _ "\<lambda>r. r"]) (simp add: preserving_def)
next
  case (Cons k ks)
  from mark_inactive_shape [of k now cur] obtain f1 where
    f1: "preserving f1 {k}" "active_student_data (mark_inactive now cur k) = map f1 (active_student_data cur)"
    by blast
  from Cons.IH [of "mark_inactive now cur k"] obtain f2 where
    f2: "preserving f2 (set ks)"
      "active_student_data (foldl (mark_inactive now) (mark_inactive now cur k) ks)
         = map f2 (active_student_data (mark_inactive now cur k))"
    by blast
  from preserving_comp [OF f1(1) f2(1)] have "preserving (f2 \<circ> f1) (set (k # ks))" by simp
  moreover have "active_student_data (foldl (mark_inactive now) cur (k # ks)) = map (f2 \<circ> f1) (active_student_data cur)"
    using f1(2) f2(2) by simp
  ultimately show ?case by blast
qed

lemma preserving_unique:
  assumes "preserving f ks" "active_student_data cur' = map f (active_student_data cur)" "unique_keys cur"
  shows "unique_keys cur'"
proof -
  from assms(1) have "row_unique_key \<circ> f = row_unique_key"
    by (auto simp: preserving_def)
  then have "map row_unique_key (map f (active_student_data cur)) = map row_unique_key (active_student_data cur)"
    by simp
  with assms(2,3) show ?thesis by (simp only: unique_keys_def)
qed

lemma sweep_post:
  assumes "k \<in> set ks" "fetchone (active_student_data cur) k = Some r"
  shows "\<exists>r'. fetchone (active_student_data (foldl (mark_inactive now) cur ks)) k = Some r'
               \<and> \<not> sql_not_inactive (row_status r')"
  using assms(1)
proof (induction ks rule: rev_induct)
  case Nil
  then show ?case by simp
next
  case (snoc x xs)
  let ?c = "foldl (mark_inactive now) cur xs"
  from sweep_shape [of xs now cur] obtain f where
    f: "preserving f (set xs)" "active_student_data ?c = map f (active_student_data cur)" by blast
  have here: "fetchone (active_student_data ?c) k = Some (f r)"
    using preserving_fetchone [OF f(1), of "active_student_data cur" k] f(2) assms(2) by simp
  show ?case
  proof (cases "x = k")
    case True
    with mark_inactive_post [OF here, of now] show ?thesis by simp
  next
    case False
    with snoc.prems have "k \<in> set xs" by simp
    from snoc.IH [OF this] obtain r' where
      r': "fetchone (active_student_data ?c) k = Some r'" "\<not> sql_not_inactive (row_status r')" by blast
    from mark_inactive_shape [of x now ?c] obtain g where
      g: "preserving g {x}" "active_student_data (mark_inactive now ?c x) = map g (active_student_data ?c)"
      by blast
    from False have "k \<notin> {x}" by simp
    from preserving_other [OF g(1) this, of "active_student_data ?c"] g(2) r'
    show ?thesis by simp
  qed
qed

lemma sweep_noop:
  assumes "unique_keys cur"
    "\<forall>k \<in> set ks. \<forall>r. fetchone (active_student_data cur) k = Some r \<longrightarrow> \<not> sql_not_inactive (row_status r)"
  shows "foldl (mark_inactive now) cur ks = cur"
  using assms(2)
proof (induction ks)
  case Nil
  then show ?case by simp
next
  case (Cons k ks)
  then have "\<forall>r. fetchone (active_student_data cur) k = Some r \<longrightarrow> \<not> sql_not_inactive (row_status r)"
    by simp
  from mark_inactive_noop [OF assms(1) this] have "mark_inactive now cur k = cur" .
  with Cons show ?case by simp
qed

lemma mark_records_as_inactive_foldl:
  assumes "\<forall>xs. set (visit xs) = set xs"
  shows "mark_records_as_inactive visit now cur E P = foldl (mark_inactive now) cur (visit (filter (\<lambda>k. k \<notin> P) E))"
proof -
  from assms have "set (visit []) = {}" by simp
  then have "visit [] = []" by simp
  then show ?thesis by (simp add: mark_records_as_inactive_def Let_def)
qed

section \<open>The loop over a batch\<close>

lemma record_key_checked:
  assumes "record_key ay record = Some (k, p)"
  shows "\<exists>tc. fields_to_check p = Inr tc"
proof -
  from assms have "process_fields record = Inr p"
    by (auto simp: record_key_def split: sum.splits)
  then show ?thesis by (rule process_fields_checked)
qed

lemma clean_gender_results: "clean_gender v = Inr ge \<Longrightarrow> ge = PNone \<or> (\<exists>s. ge = PStr s)"
  by (cases v) (auto simp: Let_def split: if_splits)

lemma record_key_plain:
  assumes key: "record_key ay record = Some (k, p)" and pl: "plain_status record"
  shows "plain_fields p"
proof -
  let ?t = "\<lambda>k. map_option trim_string (record k)"
  from key have "process_fields record = Inr p"
    by (auto simp: record_key_def split: sum.splits)
  then obtain g n ge d where
    g: "convert_grade_name (dict_get ?t ''grade_name'') = Inr g"
    and n: "clean_student_name (dict_get ?t ''student_name'') = Inr n"
    and ge: "clean_gender (dict_get ?t ''gender'') = Inr ge"
    and d: "extract_division (dict_get ?t ''division_name'') = Inr d"
    and p: "p = ?t(''grade_name'' \<mapsto> g, ''student_name'' \<mapsto> n, ''gender'' \<mapsto> ge, ''division_name'' \<mapsto> d)"
    by (auto simp: process_fields_def Let_def split: sum.splits)
  from record_key_checked [OF key] obtain tc where tc: "fields_to_check p = Inr tc" by blast
  from fields_to_check_form [OF tc] obtain b c e where
    b: "convert_grade_name (dict_get p ''grade_name'') = Inr b"
    and c: "clean_student_name (dict_get p ''student_name'') = Inr c"
    and e: "extract_division (dict_get p ''division_name'') = Inr e"
    and form: "tc = [(''status'', trim_string (dict_get p ''status'')), (''grade_name'', b),
                   (''student_name'', c), (''gender'', dict_get p ''gender''), (''division_name'', e)]"
    by blast
  have st: "dict_get p ''status'' = trim_string (dict_get record ''status'')"
    by (cases "record ''status''") (simp_all add: p dict_get_def)
  have gen: "dict_get p ''gender'' = ge" by (simp add: p dict_get_def)
  from pl st have 1: "plain (trim_string (dict_get p ''status''))" by (simp add: plain_status_def)
  from cleaner_results(1) [OF b] have 2: "plain b" by auto
  from cleaner_results(2) [OF c] have 3: "plain c" by auto
  from clean_gender_results [OF ge] gen have 4: "plain (dict_get p ''gender'')" by auto
  from cleaner_results(3) [OF e] have 5: "plain e" by auto
  from tc form 1 2 3 4 5 show ?thesis by (simp add: plain_fields_def)
qed

lemma process_record_cases:
  assumes "process_record ay now st record = Inr st'"
  shows "(record_key ay record = None \<and> record_ok ay record \<and> db st' = db st
            \<and> processed_api_keys st' = processed_api_keys st \<and> existing_keys st' = existing_keys st)
         \<or> (\<exists>k p. record_key ay record = Some (k, p) \<and> record_ok ay record
               \<and> processed_api_keys st' = insert k (processed_api_keys st)
               \<and> (k \<notin> set (existing_keys st) \<longrightarrow>
                     insert_new_record now (db st) p k ay = Inr (db st') \<and> existing_keys st' = existing_keys st)
               \<and> (k \<in> set (existing_keys st) \<longrightarrow>
                     update_existing_record now (db st) p k = Inr (db st')
                     \<and> existing_keys st' = removeAll k (existing_keys st)))"
  using assms
  by (auto simp: process_record_def record_key_def record_ok_def Let_def split: sum.splits if_splits)

lemma pass_inv_step:
  assumes inv: "pass_inv ay st m"
    and P': "processed_api_keys st' = insert k (processed_api_keys st)"
    and U: "unique_keys (db st')"
    and other: "\<forall>k'. k' \<noteq> k \<longrightarrow> fetchone (active_student_data (db st')) k' = fetchone (active_student_data (db st)) k'"
    and E': "set (existing_keys st') = set (existing_keys st) - {k}"
    and new: "m k = None \<longrightarrow> (\<exists>r'. fetchone (active_student_data (db st')) k = Some r'
                                 \<and> (row_academic_year r' = ay \<longrightarrow> unchanged_by r' p))"
    and old: "m k \<noteq> None \<longrightarrow> fetchone (active_student_data (db st')) k = fetchone (active_student_data (db st)) k"
  shows "pass_inv ay st' (if m k = None then m(k \<mapsto> p) else m)"
proof -
  let ?m = "if m k = None then m(k \<mapsto> p) else m"
  let ?L = "fetchone (active_student_data (db st))"
  let ?L' = "fetchone (active_student_data (db st'))"
  from inv have P: "processed_api_keys st = dom m"
    and E: "set (existing_keys st) = {k. m k = None \<and> (\<exists>r. ?L k = Some r \<and> row_academic_year r = ay)}"
    and R: "\<forall>k p. m k = Some p \<longrightarrow> (\<exists>r. ?L k = Some r \<and> (row_academic_year r = ay \<longrightarrow> unchanged_by r p))"
    by (simp_all add: pass_inv_def)
  have mk: "?m k \<noteq> None" by simp
  have mo: "\<And>k'. k' \<noteq> k \<Longrightarrow> ?m k' = m k'" by simp
  have 1: "processed_api_keys st' = dom ?m"
    using P P' by (auto split: if_splits)
  have 2: "set (existing_keys st') = {k'. ?m k' = None \<and> (\<exists>r. ?L' k' = Some r \<and> row_academic_year r = ay)}"
  proof (intro set_eqI iffI)
    fix x assume "x \<in> set (existing_keys st')"
    with E' E have x: "x \<noteq> k" "m x = None" "\<exists>r. ?L x = Some r \<and> row_academic_year r = ay" by auto
    with other mo show "x \<in> {k'. ?m k' = None \<and> (\<exists>r. ?L' k' = Some r \<and> row_academic_year r = ay)}"
      by simp
  next
    fix x assume a: "x \<in> {k'. ?m k' = None \<and> (\<exists>r. ?L' k' = Some r \<and> row_academic_year r = ay)}"
    with mk have xk: "x \<noteq> k" by auto
    with a mo other have "m x = None" "\<exists>r. ?L x = Some r \<and> row_academic_year r = ay" by auto
    with E E' xk show "x \<in> set (existing_keys st')" by simp
  qed
  have 3: "\<forall>k' q. ?m k' = Some q \<longrightarrow> (\<exists>r. ?L' k' = Some r \<and> (row_academic_year r = ay \<longrightarrow> unchanged_by r q))"
  proof (intro allI impI)
    fix k' q assume q: "?m k' = Some q"
    show "\<exists>r. ?L' k' = Some r \<and> (row_academic_year r = ay \<longrightarrow> unchanged_by r q)"
    proof (cases "k' = k")
      case False
      with q mo have "m k' = Some q" by simp
      with R other False show ?thesis by simp
    next
      case True
      show ?thesis
      proof (cases "m k")
        case None
        with q True have "q = p" by simp
        with new None True show ?thesis by simp
      next
        case (Some q')
        with q True have "m k = Some q" by simp
        with R old True show ?thesis by simp
      qed
    qed
  qed
  from U 1 2 3 show ?thesis unfolding pass_inv_def by blast
qed

lemma process_record_inv:
  assumes step: "process_record ay now st record = Inr st'" and inv: "pass_inv ay st m"
    and pl: "plain_status record"
  shows "pass_inv ay st' (note_record ay m record)"
proof -
  let ?T = "active_student_data (db st)"
  from inv have U: "unique_keys (db st)"
    and E: "set (existing_keys st) = {k. m k = None \<and> (\<exists>r. fetchone ?T k = Some r \<and> row_academic_year r = ay)}"
    and R: "\<forall>k p. m k = Some p \<longrightarrow> (\<exists>r. fetchone ?T k = Some r \<and> (row_academic_year r = ay \<longrightarrow> unchanged_by r p))"
    by (simp_all add: pass_inv_def)
  from process_record_cases [OF step] show ?thesis
  proof (elim disjE conjE exE)
    assume "record_key ay record = None" "db st' = db st"
      "processed_api_keys st' = processed_api_keys st" "existing_keys st' = existing_keys st"
    with inv show ?thesis by (simp add: pass_inv_def note_record_def)
  next
    fix k p
    assume key: "record_key ay record = Some (k, p)"
      and P': "processed_api_keys st' = insert k (processed_api_keys st)"
      and ins: "k \<notin> set (existing_keys st) \<longrightarrow>
                  insert_new_record now (db st) p k ay = Inr (db st') \<and> existing_keys st' = existing_keys st"
      and upd: "k \<in> set (existing_keys st) \<longrightarrow>
                  update_existing_record now (db st) p k = Inr (db st') \<and> existing_keys st' = removeAll k (existing_keys st)"
    from record_key_checked [OF key] obtain tc where tc: "fields_to_check p = Inr tc" by blast
    from record_key_plain [OF key pl] have plp: "plain_fields p" .
    have nrec: "note_record ay m record = (if m k = None then m(k \<mapsto> p) else m)"
      using key by (simp add: note_record_def)
    have "pass_inv ay st' (if m k = None then m(k \<mapsto> p) else m)"
    proof (cases "k \<in> set (existing_keys st)")
      case True
      with E obtain r where mk: "m k = None" and r: "fetchone ?T k = Some r" "row_academic_year r = ay" by auto
      from True upd have u: "update_existing_record now (db st) p k = Inr (db st')"
        and E': "existing_keys st' = removeAll k (existing_keys st)" by simp_all
      from update_existing_record_spec [OF u r(1) plp] obtain r' where
        r': "fetchone (active_student_data (db st')) k = Some r'" "unchanged_by r' p"
        and other: "\<forall>k'. k' \<noteq> k \<longrightarrow> fetchone (active_student_data (db st')) k' = fetchone ?T k'"
        and keys: "map row_unique_key (active_student_data (db st')) = map row_unique_key ?T"
        by blast
      from keys U have U': "unique_keys (db st')" by (simp add: unique_keys_def)
      show ?thesis
        by (rule pass_inv_step [OF inv P' U' other]) (use E' r' mk in simp_all)
    next
      case False
      with ins have i: "insert_new_record now (db st) p k ay = Inr (db st')"
        and E': "existing_keys st' = existing_keys st" by simp_all
      show ?thesis
      proof (cases "fetchone ?T k")
        case (Some r)
        from insert_new_record_present [OF Some tc, of now ay] i have same: "db st' = db st" by simp
        have new: "m k = None \<longrightarrow> (\<exists>r'. fetchone (active_student_data (db st')) k = Some r'
                                 \<and> (row_academic_year r' = ay \<longrightarrow> unchanged_by r' p))"
        proof
          assume "m k = None"
          with False E Some have "row_academic_year r \<noteq> ay" by auto
          with Some same show "\<exists>r'. fetchone (active_student_data (db st')) k = Some r'
                                 \<and> (row_academic_year r' = ay \<longrightarrow> unchanged_by r' p)" by simp
        qed
        show ?thesis
          by (rule pass_inv_step [OF inv P' _ _ _ new]) (use same U E' False in simp_all)
      next
        case None
        from insert_new_record_absent [OF None tc, of now ay] i plp obtain r where
          tab: "active_student_data (db st') = ?T @ [r]"
          and r: "row_unique_key r = k" "row_academic_year r = ay" "unchanged_by r p"
          by auto
        from None fetchone_None_iff [of ?T k] have "k \<notin> set (map row_unique_key ?T)" by blast
        with U tab r(1) have U': "unique_keys (db st')" by (simp add: unique_keys_def)
        have look: "\<And>k'. fetchone (active_student_data (db st')) k' =
           (case fetchone ?T k' of Some x \<Rightarrow> Some x | None \<Rightarrow> if row_unique_key r = k' then Some r else None)"
          unfolding tab by (rule fetchone_append)
        have other: "\<forall>k'. k' \<noteq> k \<longrightarrow> fetchone (active_student_data (db st')) k' = fetchone ?T k'"
          using look r(1) by (auto split: option.splits)
        have here: "fetchone (active_student_data (db st')) k = Some r"
          using look [of k] None r(1) by simp
        from R None have mk: "m k = None" by (cases "m k") fastforce+
        show ?thesis
          by (rule pass_inv_step [OF inv P' U' other]) (use E' False here r mk in simp_all)
      qed
    qed
    with nrec show ?thesis by simp
  qed
qed

lemma process_records_inv:
  assumes "process_records ay now st rs = Inr st'" "pass_inv ay st m" "\<forall>record \<in> set rs. plain_status record"
  shows "pass_inv ay st' (first_records ay rs m) \<and> (\<forall>record \<in> set rs. record_ok ay record)"
  using assms
proof (induction rs arbitrary: st m)
  case Nil
  then show ?case by simp
next
  case (Cons x rs)
  from Cons.prems(1) obtain st1 where
    s1: "process_record ay now st x = Inr st1" and rest: "process_records ay now st1 rs = Inr st'"
    by (auto split: sum.splits)
  from Cons.prems(3) have plx: "plain_status x" and plrs: "\<forall>record \<in> set rs. plain_status record"
    by simp_all
  from process_record_inv [OF s1 Cons.prems(2) plx] have "pass_inv ay st1 (note_record ay m x)" .
  from Cons.IH [OF rest this plrs] process_record_cases [OF s1] show ?case
    by (auto simp only: first_records_step set_simps)
qed

section \<open>A second pass\<close>

lemma sweep_settles:
  assumes inv: "pass_inv ay st m" and visit: "\<forall>xs. set (visit xs) = set xs"
  shows "settled ay (mark_records_as_inactive visit now (db st) (existing_keys st) (processed_api_keys st)) m"
proof -
  let ?T = "active_student_data (db st)"
  let ?ks = "visit (filter (\<lambda>k. k \<notin> processed_api_keys st) (existing_keys st))"
  let ?c = "foldl (mark_inactive now) (db st) ?ks"
  from inv have U: "unique_keys (db st)" and P: "processed_api_keys st = dom m"
    and E: "set (existing_keys st) = {k. m k = None \<and> (\<exists>r. fetchone ?T k = Some r \<and> row_academic_year r = ay)}"
    and R: "\<forall>k p. m k = Some p \<longrightarrow> (\<exists>r. fetchone ?T k = Some r \<and> (row_academic_year r = ay \<longrightarrow> unchanged_by r p))"
    by (simp_all add: pass_inv_def)
  have c: "mark_records_as_inactive visit now (db st) (existing_keys st) (processed_api_keys st) = ?c"
    by (rule mark_records_as_inactive_foldl [OF visit])
  have ks: "set ?ks = {k. m k = None \<and> (\<exists>r. fetchone ?T k = Some r \<and> row_academic_year r = ay)}"
    using visit E P by auto
  from sweep_shape [of ?ks now "db st"] obtain f where
    f: "preserving f (set ?ks)" "active_student_data ?c = map f ?T" by blast
  have look: "\<And>k. fetchone (active_student_data ?c) k = map_option f (fetchone ?T k)"
    unfolding f(2) by (rule preserving_fetchone [OF f(1)])
  have year: "\<And>r. row_academic_year (f r) = row_academic_year r"
    using f(1) by (simp add: preserving_def)
  have 1: "unique_keys ?c" by (rule preserving_unique [OF f U])
  have 2: "\<forall>k p. m k = Some p \<longrightarrow>
            (\<exists>r. fetchone (active_student_data ?c) k = Some r \<and> (row_academic_year r = ay \<longrightarrow> unchanged_by r p))"
  proof (intro allI impI)
    fix k p assume mk: "m k = Some p"
    with ks have "k \<notin> set ?ks" by simp
    from preserving_other [OF f(1) this, of ?T] f(2)
    have "fetchone (active_student_data ?c) k = fetchone ?T k" by simp
    with R mk show "\<exists>r. fetchone (active_student_data ?c) k = Some r \<and> (row_academic_year r = ay \<longrightarrow> unchanged_by r p)"
      by simp
  qed
  have 3: "\<forall>k r. m k = None \<and> fetchone (active_student_data ?c) k = Some r \<and> row_academic_year r = ay
            \<longrightarrow> \<not> sql_not_inactive (row_status r)"
  proof (intro allI impI)
    fix k r assume a: "m k = None \<and> fetchone (active_student_data ?c) k = Some r \<and> row_academic_year r = ay"
    with look [of k] have "\<exists>r0. fetchone ?T k = Some r0 \<and> r = f r0"
      by (cases "fetchone ?T k") auto
    then obtain r0 where r0: "fetchone ?T k = Some r0" "r = f r0" by blast
    with a year [of r0] have "row_academic_year r0 = ay" by simp
    with a r0 ks have "k \<in> set ?ks" by simp
    from sweep_post [OF this r0(1), of now] a show "\<not> sql_not_inactive (row_status r)" by auto
  qed
  from 1 2 3 show ?thesis unfolding c settled_def by blast
qed

lemma process_record_settled:
  assumes s: "settled ay (db st) m1" and inv: "pass_inv ay st m2"
    and m1: "first_records ay (x # rs) m2 = m1" and ok: "record_ok ay x"
  shows "\<exists>st'. process_record ay now st x = Inr st' \<and> db st' = db st"
proof (cases "validate_student_record x")
  case (Inl msg)
  then show ?thesis by (simp add: process_record_def)
next
  case (Inr v)
  with ok obtain k p where key: "record_key ay x = Some (k, p)"
    by (auto simp: record_ok_def)
  with Inr have pf: "process_fields x = Inr p" and gk: "generate_unique_key p ay = Inr k"
    by (auto simp: record_key_def split: sum.splits)
  from record_key_checked [OF key] obtain tc where tc: "fields_to_check p = Inr tc" by blast
  let ?T = "active_student_data (db st)"
  from inv have E: "set (existing_keys st) = {k. m2 k = None \<and> (\<exists>r. fetchone ?T k = Some r \<and> row_academic_year r = ay)}"
    by (simp add: pass_inv_def)
  from s have R: "\<forall>k p. m1 k = Some p \<longrightarrow> (\<exists>r. fetchone ?T k = Some r \<and> (row_academic_year r = ay \<longrightarrow> unchanged_by r p))"
    unfolding settled_def by blast
  have m1': "m1 = first_records ay rs (note_record ay m2 x)"
    using m1 by (simp only: first_records_step)
  show ?thesis
  proof (cases "k \<in> set (existing_keys st)")
    case True
    with E obtain r where mk: "m2 k = None" and r: "fetchone ?T k = Some r" "row_academic_year r = ay" by auto
    from mk key have "note_record ay m2 x k = Some p" by (simp add: note_record_def)
    with first_records_keeps [of "note_record ay m2 x" k p ay rs] m1' have "m1 k = Some p" by simp
    with R r have "unchanged_by r p" by fastforce
    from update_existing_record_noop [OF r(1) this, of now]
    show ?thesis using Inr pf gk True by (simp add: process_record_def)
  next
    case False
    from key have "\<exists>q. note_record ay m2 x k = Some q"
      by (auto simp: note_record_def)
    then obtain q where "note_record ay m2 x k = Some q" by blast
    with first_records_keeps [of "note_record ay m2 x" k q ay rs] m1' have "m1 k = Some q" by simp
    with R obtain r where "fetchone ?T k = Some r" by fastforce
    from insert_new_record_present [OF this tc, of now ay]
    show ?thesis using Inr pf gk False by (simp add: process_record_def)
  qed
qed

lemma process_records_settled:
  assumes "settled ay (db st) m1" "pass_inv ay st m2" "first_records ay rs m2 = m1"
    "\<forall>x \<in> set rs. record_ok ay x" "\<forall>x \<in> set rs. plain_status x"
  shows "\<exists>st'. process_records ay now st rs = Inr st' \<and> db st' = db st \<and> pass_inv ay st' m1"
  using assms
proof (induction rs arbitrary: st m2)
  case Nil
  then show ?case by simp
next
  case (Cons x rs)
  from Cons.prems(4) have okx: "record_ok ay x" and okrs: "\<forall>x \<in> set rs. record_ok ay x" by simp_all
  from process_record_settled [OF Cons.prems(1,2,3) okx, of now] obtain st1 where
    st1: "process_record ay now st x = Inr st1" "db st1 = db st" by blast
  from Cons.prems(5) have plx: "plain_status x" and plrs: "\<forall>x \<in> set rs. plain_status x" by simp_all
  from process_record_inv [OF st1(1) Cons.prems(2) plx] have inv1: "pass_inv ay st1 (note_record ay m2 x)" .
  from Cons.prems(3) have m1: "first_records ay rs (note_record ay m2 x) = m1"
    by (simp only: first_records_step)
  from Cons.prems(1) st1(2) have s1: "settled ay (db st1) m1" by simp
  from Cons.IH [OF s1 inv1 m1 okrs plrs] obtain st' where
    "process_records ay now st1 rs = Inr st'" "db st' = db st1" "pass_inv ay st' m1" by blast
  with st1 show ?case by simp
qed

lemma sweep_settled_noop:
  assumes s: "settled ay (db st) m" and inv: "pass_inv ay st m" and visit: "\<forall>xs. set (visit xs) = set xs"
  shows "mark_records_as_inactive visit now (db st) (existing_keys st) (processed_api_keys st) = db st"
proof -
  let ?T = "active_student_data (db st)"
  let ?ks = "visit (filter (\<lambda>k. k \<notin> processed_api_keys st) (existing_keys st))"
  from inv have E: "set (existing_keys st) = {k. m k = None \<and> (\<exists>r. fetchone ?T k = Some r \<and> row_academic_year r = ay)}"
    by (simp add: pass_inv_def)
  from s have U: "unique_keys (db st)"
    and I: "\<forall>k r. m k = None \<and> fetchone ?T k = Some r \<and> row_academic_year r = ay \<longrightarrow> \<not> sql_not_inactive (row_status r)"
    unfolding settled_def by blast+
  have "\<forall>k \<in> set ?ks. \<forall>r. fetchone ?T k = Some r \<longrightarrow> \<not> sql_not_inactive (row_status r)"
  proof (intro ballI allI impI)
    fix k r assume k: "k \<in> set ?ks" and r: "fetchone ?T k = Some r"
    from k visit have "k \<in> set (existing_keys st)" by simp
    with E r have "m k = None" "row_academic_year r = ay" by auto
    with I r show "\<not> sql_not_inactive (row_status r)" by blast
  qed
  from sweep_noop [OF U this, of now] show ?thesis
    by (simp only: mark_records_as_inactive_foldl [OF visit])
qed

lemma initial_inv:
  assumes "unique_keys cur"
  shows "pass_inv ay \<lparr>db = cur, existing_keys = fetch_existing_keys cur ay, processed_api_keys = {},
                       new_records_count = 0, updated_records_count = 0, skipped_invalid_records_count = 0\<rparr>
           Map.empty"
  using assms existing_keys_iff [OF assms, of _ ay]
  by (auto simp: pass_inv_def)

text \<open>
  A pass over a batch in which every status is \<^verbatim>\<open>None\<close>, a string or an integer, started from
  a store that keeps its keys unique and run to its commit, leaves a store on which a second
  pass over the same batch in the same academic year runs to its commit with both tables as
  they are and no statement that changes a row. The clock of the second pass and the order in
  which either pass visits the set of keys to mark are arbitrary. As everywhere here, no value
  is longer than its column.
\<close>

lemma second_pass_plain_status:
  assumes unique: "unique_keys cur"
    and visit1: "\<forall>xs. set (visit1 xs) = set xs" and visit2: "\<forall>xs. set (visit2 xs) = set xs"
    and plain: "\<forall>record \<in> set students_data. plain_status record"
    and first: "main visit1 academic_year now1 cur students_data = Inr st1"
  shows "\<exists>st2. main visit2 academic_year now2 (db st1) students_data = Inr st2
           \<and> active_student_data (db st2) = active_student_data (db st1)
           \<and> student_data_history (db st2) = student_data_history (db st1)
           \<and> writes (db st2) = writes (db st1)"
proof -
  let ?init = "\<lambda>c. \<lparr>db = c, existing_keys = fetch_existing_keys c academic_year, processed_api_keys = {},
                       new_records_count = 0, updated_records_count = 0, skipped_invalid_records_count = 0\<rparr>"
  let ?m = "first_records academic_year students_data Map.empty"
  from first have ne: "students_data \<noteq> []" by (auto simp: main_def split: if_splits)
  with first obtain st where
    loop: "process_records academic_year now1 (?init cur) students_data = Inr st"
    and st1: "st1 = st\<lparr>db := mark_records_as_inactive visit1 now1 (db st) (existing_keys st) (processed_api_keys st)\<rparr>"
    by (auto simp: main_def split: sum.splits)
  from process_records_inv [OF loop initial_inv [OF unique] plain]
  have inv: "pass_inv academic_year st ?m" and ok: "\<forall>x \<in> set students_data. record_ok academic_year x"
    by simp_all
  from sweep_settles [OF inv visit1, of now1] st1 have s: "settled academic_year (db st1) ?m" by simp
  then have u1: "unique_keys (db st1)" by (simp add: settled_def)
  have s': "settled academic_year (db (?init (db st1))) ?m" using s by simp
  from process_records_settled [OF s' initial_inv [OF u1] refl ok plain, of now2] obtain st' where
    loop2: "process_records academic_year now2 (?init (db st1)) students_data = Inr st'"
    and db': "db st' = db st1" and inv': "pass_inv academic_year st' ?m" by auto
  from s db' have "settled academic_year (db st') ?m" by simp
  from sweep_settled_noop [OF this inv' visit2, of now2] db'
  have "mark_records_as_inactive visit2 now2 (db st') (existing_keys st') (processed_api_keys st') = db st1"
    by simp
  with loop2 ne show ?thesis by (simp add: main_def)
qed

lemma second_pass_plain_status_example:
  "\<exists>st1 st2.
        main id ''2024-2025'' ''t1'' (example_cursor [example_row (PStr ''Active'') PNone])
          [example_record(''student_id'' \<mapsto> PInt 18),
           example_record(''student_id'' \<mapsto> PInt 18, ''status'' \<mapsto> PStr ''Left'')] = Inr st1
        \<and> main id ''2024-2025'' ''t2'' (db st1)
          [example_record(''student_id'' \<mapsto> PInt 18),
           example_record(''student_id'' \<mapsto> PInt 18, ''status'' \<mapsto> PStr ''Left'')] = Inr st2
        \<and> active_student_data (db st2) = active_student_data (db st1)
        \<and> student_data_history (db st2) = student_data_history (db st1)
        \<and> writes (db st2) = writes (db st1)"
proof -
  let ?cur = "example_cursor [example_row (PStr ''Active'') PNone]"
  let ?batch = "[example_record(''student_id'' \<mapsto> PInt 18),
           example_record(''student_id'' \<mapsto> PInt 18, ''status'' \<mapsto> PStr ''Left'')]"
  have u: "unique_keys ?cur" by (simp add: unique_keys_def example_cursor_def)
  have v: "\<forall>xs :: string list. set (id xs) = set xs" by simp
  have p: "\<forall>record \<in> set ?batch. plain_status record"
    by (simp add: plain_status_def dict_get_def example_record_def)
  have "\<exists>st1. main id ''2024-2025'' ''t1'' ?cur ?batch = Inr st1"
    by (simp add: pass_eval db_eval str_eval int_eval)
  then obtain st1 where first: "main id ''2024-2025'' ''t1'' ?cur ?batch = Inr st1" by blast
  from second_pass_plain_status [OF u v v p first, of "''t2''"] first show ?thesis by blast
qed

text \<open>
  Claim C2, idempotence of a pass, fails on a record whose status is the JSON value
  \<^verbatim>\<open>true\<close>. The validator accepts it, the first pass inserts the row, and the column keeps the
  text \<^verbatim>\<open>'1'\<close>. The second pass over the same batch reads \<^verbatim>\<open>'1'\<close> back, compares
  \<^verbatim>\<open>str('1')\<close> with \<^verbatim>\<open>str(True)\<close>, takes the status for changed, writes an \<^verbatim>\<open>UPDATE\<close> history
  row whose old and new value are both \<^verbatim>\<open>'1'\<close>, and rewrites the row with a new timestamp.
\<close>

theorem second_pass_rewrites_true_status:
  "main id ''2024-2025'' ''t1'' (example_cursor []) [example_record(''status'' \<mapsto> PBool True)]
     = Inr \<lparr>db = \<lparr>active_student_data = [example_row (PStr ''1'') PNone\<lparr>row_timestamp := ''t1''\<rparr>],
                  student_data_history =
                    [\<lparr>h_unique_key = ''S_17_2024-2025_GRADE 1'', h_change_type = INSERT,
                      h_field_changed = PStr ''New Record'', h_old_value = PNone,
                      h_new_value = PStr ''Initial Insertion'', h_change_timestamp = ''t1''\<rparr>],
                  writes = [Inserted ''S_17_2024-2025_GRADE 1'']\<rparr>,
            existing_keys = [], processed_api_keys = {''S_17_2024-2025_GRADE 1''},
            new_records_count = 1, updated_records_count = 0, skipped_invalid_records_count = 0\<rparr>
   \<and> main id ''2024-2025'' ''t2''
        \<lparr>active_student_data = [example_row (PStr ''1'') PNone\<lparr>row_timestamp := ''t1''\<rparr>],
         student_data_history =
           [\<lparr>h_unique_key = ''S_17_2024-2025_GRADE 1'', h_change_type = INSERT,
             h_field_changed = PStr ''New Record'', h_old_value = PNone,
             h_new_value = PStr ''Initial Insertion'', h_change_timestamp = ''t1''\<rparr>],
         writes = [Inserted ''S_17_2024-2025_GRADE 1'']\<rparr>
        [example_record(''status'' \<mapsto> PBool True)]
     = Inr \<lparr>db = \<lparr>active_student_data = [example_row (PStr ''1'') PNone\<lparr>row_timestamp := ''t2''\<rparr>],
                  student_data_history =
                    [\<lparr>h_unique_key = ''S_17_2024-2025_GRADE 1'', h_change_type = INSERT,
                      h_field_changed = PStr ''New Record'', h_old_value = PNone,
                      h_new_value = PStr ''Initial Insertion'', h_change_timestamp = ''t1''\<rparr>,
                     \<lparr>h_unique_key = ''S_17_2024-2025_GRADE 1'', h_change_type = UPDATE,
                      h_field_changed = PStr ''status'', h_old_value = PStr ''1'',
                      h_new_value = PStr ''1'', h_change_timestamp = ''t2''\<rparr>],
                  writes = [Inserted ''S_17_2024-2025_GRADE 1'', Updated ''S_17_2024-2025_GRADE 1'']\<rparr>,
            existing_keys = [], processed_api_keys = {''S_17_2024-2025_GRADE 1''},
            new_records_count = 0, updated_records_count = 1, skipped_invalid_records_count = 0\<rparr>"
  by (simp add: pass_eval db_eval str_eval int_eval)

section \<open>Marking rows inactive\<close>

lemma mark_inactive_cases:
  assumes "fetchone (active_student_data cur) k = Some r"
  shows "(row_status r = PStr ''Inactive'' \<longrightarrow> mark_inactive now cur k = cur)
         \<and> (unique_keys cur \<and> row_status r = PNone \<longrightarrow> mark_inactive now cur k = cur)
         \<and> (sql_not_inactive (row_status r) \<longrightarrow>
              mark_inactive now cur k =
                \<lparr>active_student_data = sql_update_status now k (active_student_data cur),
                 student_data_history = student_data_history cur @
                   [\<lparr>h_unique_key = k, h_change_type = INACTIVATE, h_field_changed = PStr ''status'',
                     h_old_value = sql_text (row_status r), h_new_value = PStr ''Inactive'',
                     h_change_timestamp = now\<rparr>],
                 writes = writes cur @ [Inactivated k]\<rparr>)"
proof (intro conjI impI)
  assume "row_status r = PStr ''Inactive''"
  with assms show "mark_inactive now cur k = cur" by (simp add: mark_inactive_def)
next
  assume a: "unique_keys cur \<and> row_status r = PNone"
  with assms have "\<forall>x. fetchone (active_student_data cur) k = Some x \<longrightarrow> \<not> sql_not_inactive (row_status x)"
    by (simp add: sql_not_inactive_def)
  with a show "mark_inactive now cur k = cur" by (simp add: mark_inactive_noop)
next
  assume a: "sql_not_inactive (row_status r)"
  from fetchone_Some_key [OF assms] a
  have "filter (\<lambda>x. row_unique_key x = k \<and> sql_not_inactive (row_status x)) (active_student_data cur) \<noteq> []"
    by (auto simp: filter_empty_conv)
  then have "rowcount_update_status k (active_student_data cur) > 0"
    by (simp add: rowcount_update_status_def)
  with a assms show "mark_inactive now cur k =
                \<lparr>active_student_data = sql_update_status now k (active_student_data cur),
                 student_data_history = student_data_history cur @
                   [\<lparr>h_unique_key = k, h_change_type = INACTIVATE, h_field_changed = PStr ''status'',
                     h_old_value = sql_text (row_status r), h_new_value = PStr ''Inactive'',
                     h_change_timestamp = now\<rparr>],
                 writes = writes cur @ [Inactivated k]\<rparr>"
    by (simp add: mark_inactive_def Let_def log_history_def sql_not_inactive_def)
qed

text \<open>
  Claim C3, exactness of the sweep, fails on a row whose status is \<^verbatim>\<open>NULL\<close>: the test in
  Python, \<^verbatim>\<open>current_status[0] != 'Inactive'\<close>, lets the row through, but the condition
  \<^verbatim>\<open>status != 'Inactive'\<close> of the \<^verbatim>\<open>UPDATE\<close> selects no row with a \<^verbatim>\<open>NULL\<close> status, so
  \<^verbatim>\<open>rowcount\<close> is 0: the row keeps its status and no history row is written, although its
  key is gone from the batch and its status is not \<^verbatim>\<open>'Inactive'\<close>. A row with the status
  \<^verbatim>\<open>'Active'\<close> in the same place is set to \<^verbatim>\<open>'Inactive'\<close> with one history row, as the claim
  says. The last three lines are the same store under a whole pass of \<^verbatim>\<open>main\<close> over a batch
  with another key.
\<close>

theorem null_status_is_not_marked_inactive:
  "mark_records_as_inactive id ''t1'' (example_cursor [example_row PNone PNone])
      [''S_17_2024-2025_GRADE 1''] {}
     = example_cursor [example_row PNone PNone]
   \<and> mark_records_as_inactive id ''t1'' (example_cursor [example_row (PStr ''Active'') PNone])
        [''S_17_2024-2025_GRADE 1''] {}
     = \<lparr>active_student_data = [example_row (PStr ''Inactive'') PNone\<lparr>row_timestamp := ''t1''\<rparr>],
        student_data_history =
          [\<lparr>h_unique_key = ''S_17_2024-2025_GRADE 1'', h_change_type = INACTIVATE,
            h_field_changed = PStr ''status'', h_old_value = PStr ''Active'',
            h_new_value = PStr ''Inactive'', h_change_timestamp = ''t1''\<rparr>],
        writes = [Inactivated ''S_17_2024-2025_GRADE 1'']\<rparr>
   \<and> \<not> isl (main id ''2024-2025'' ''t1'' (example_cursor [example_row PNone PNone])
              [example_record(''student_id'' \<mapsto> PInt 18)])
   \<and> map row_status (active_student_data (db (projr
        (main id ''2024-2025'' ''t1'' (example_cursor [example_row PNone PNone])
              [example_record(''student_id'' \<mapsto> PInt 18)]))))
     = [PNone, PStr ''Active'']
   \<and> map h_change_type (student_data_history (db (projr
        (main id ''2024-2025'' ''t1'' (example_cursor [example_row PNone PNone])
              [example_record(''student_id'' \<mapsto> PInt 18)]))))
     = [INSERT]"
  by (simp add: pass_eval db_eval str_eval int_eval)

section \<open>Detecting changes\<close>

text \<open>
  Claim C4 as stated fails: the two sides are compared as \<^verbatim>\<open>str(old_val)\<close> and
  \<^verbatim>\<open>str(new_val)\<close>, and the empty string has the text \<^verbatim>\<open>''\<close>, not \<^verbatim>\<open>'None'\<close>. A stored empty
  gender against an incoming gender that was cleaned to \<^verbatim>\<open>None\<close> is a change, with its
  \<^verbatim>\<open>UPDATE\<close> history row and its write.
\<close>

theorem empty_text_differs_from_none:
  "field_changes [''gender'' \<mapsto> PStr []] [(''gender'', PNone)] = [(''gender'', PStr [], PNone)]
   \<and> field_changes [''gender'' \<mapsto> PNone] [(''gender'', PStr [])] = [(''gender'', PNone, PStr [])]
   \<and> update_existing_record ''t1'' (example_cursor [example_row (PStr ''Active'') (PStr [])])
        (example_record(''gender'' \<mapsto> PNone)) ''S_17_2024-2025_GRADE 1''
     = Inr \<lparr>active_student_data = [example_row (PStr ''Active'') PNone\<lparr>row_timestamp := ''t1''\<rparr>],
            student_data_history =
              [\<lparr>h_unique_key = ''S_17_2024-2025_GRADE 1'', h_change_type = UPDATE,
                h_field_changed = PStr ''gender'', h_old_value = PStr [], h_new_value = PNone,
                h_change_timestamp = ''t1''\<rparr>],
            writes = [Updated ''S_17_2024-2025_GRADE 1'']\<rparr>"
  by (simp add: db_eval str_eval)

lemma py_str_none: "v = PNone \<or> v = PStr ''None'' \<Longrightarrow> py_str v = ''None''"
  by (erule disjE) simp_all

lemma log_changes_history:
  "student_data_history (log_changes now k cur changes) =
     student_data_history cur @
       map (\<lambda>(field, old_val, new_val).
              \<lparr>h_unique_key = k, h_change_type = UPDATE, h_field_changed = PStr field,
               h_old_value = sql_text old_val, h_new_value = sql_text new_val, h_change_timestamp = now\<rparr>)
         changes"
  unfolding log_changes_def
proof (induction changes rule: rev_induct)
  case Nil
  then show ?case by simp
next
  case (snoc x xs)
  then show ?case by (cases x) (simp add: log_history_def)
qed

lemma field_changes_iff:
  "(field, old_val, new_val) \<in> set (field_changes details to_check) \<longleftrightarrow>
     (field, new_val) \<in> set to_check \<and> old_val = dict_get details field \<and> py_str old_val \<noteq> py_str new_val"
  unfolding field_changes_def by auto

text \<open>
  Claim C4, amended: \<^verbatim>\<open>update_existing_record\<close> compares, for each of the five fields
  \<^verbatim>\<open>status\<close>, \<^verbatim>\<open>grade_name\<close>, \<^verbatim>\<open>student_name\<close>, \<^verbatim>\<open>gender\<close> and \<^verbatim>\<open>division_name\<close>, the
  texts \<^verbatim>\<open>str(old)\<close> of the stored value and \<^verbatim>\<open>str(new)\<close> of the new value. A field gives a
  change tuple (field, old, new) exactly when the two texts differ. An absent value and the
  string \<^verbatim>\<open>"None"\<close> have the same text, so a field whose old and new value are among these
  two gives no tuple. The empty string has another text: a field that is empty on one side
  and absent or \<^verbatim>\<open>"None"\<close> on the other gives a tuple. The call appends one \<^verbatim>\<open>UPDATE\<close>
  history row for every tuple, in the order of the fields, with the field, the old and the
  new value, and nothing else; it executes the update of the row once when there is a tuple,
  and writes nothing when there is none.
\<close>

theorem field_changes_by_text:
  assumes "fetchone (active_student_data cur) unique_key = Some r"
    and "fields_to_check record = Inr checked"
  shows "checked =
       [(''status'', trim_string (dict_get record ''status'')),
        (''grade_name'', projr (convert_grade_name (dict_get record ''grade_name''))),
        (''student_name'', projr (clean_student_name (dict_get record ''student_name''))),
        (''gender'', dict_get record ''gender''),
        (''division_name'', projr (extract_division (dict_get record ''division_name'')))]
    \<and> (\<forall>field old_val new_val.
          (field, old_val, new_val) \<in> set (field_changes (record_details r) checked) \<longleftrightarrow>
            (field, new_val) \<in> set checked \<and> old_val = dict_get (record_details r) field
            \<and> py_str old_val \<noteq> py_str new_val)
    \<and> (\<forall>field new_val.
          (field, new_val) \<in> set checked
          \<and> dict_get (record_details r) field \<in> {PNone, PStr ''None''} \<and> new_val \<in> {PNone, PStr ''None''}
          \<longrightarrow> field \<notin> set (map fst (field_changes (record_details r) checked)))
    \<and> (\<forall>field new_val.
          (field, new_val) \<in> set checked
          \<and> ((dict_get (record_details r) field = PStr [] \<and> new_val \<in> {PNone, PStr ''None''})
               \<or> (dict_get (record_details r) field \<in> {PNone, PStr ''None''} \<and> new_val = PStr []))
          \<longrightarrow> (field, dict_get (record_details r) field, new_val) \<in> set (field_changes (record_details r) checked))
    \<and> (\<exists>cur'. update_existing_record now cur record unique_key = Inr cur'
          \<and> student_data_history cur' =
              student_data_history cur @
                map (\<lambda>(field, old_val, new_val).
                       \<lparr>h_unique_key = unique_key, h_change_type = UPDATE, h_field_changed = PStr field,
                        h_old_value = sql_text old_val, h_new_value = sql_text new_val,
                        h_change_timestamp = now\<rparr>)
                  (field_changes (record_details r) checked)
          \<and> writes cur' =
              writes cur @ (if field_changes (record_details r) checked = [] then [] else [Updated unique_key])
          \<and> active_student_data cur' =
              (if field_changes (record_details r) checked = [] then active_student_data cur
               else sql_update now unique_key (map_of checked) (active_student_data cur)))"
proof -
  let ?changes = "field_changes (record_details r) checked"
  from fields_to_check_form [OF assms(2)] obtain b c e where
    b: "convert_grade_name (dict_get record ''grade_name'') = Inr b"
    and c: "clean_student_name (dict_get record ''student_name'') = Inr c"
    and e: "extract_division (dict_get record ''division_name'') = Inr e"
    and form: "checked = [(''status'', trim_string (dict_get record ''status'')), (''grade_name'', b),
                   (''student_name'', c), (''gender'', dict_get record ''gender''), (''division_name'', e)]"
    by blast
  from form b c e have names: "checked =
       [(''status'', trim_string (dict_get record ''status'')),
        (''grade_name'', projr (convert_grade_name (dict_get record ''grade_name''))),
        (''student_name'', projr (clean_student_name (dict_get record ''student_name''))),
        (''gender'', dict_get record ''gender''),
        (''division_name'', projr (extract_division (dict_get record ''division_name'')))]"
    by simp
  from form have dist: "distinct (map fst checked)" by simp
  have iff: "\<forall>field old_val new_val.
          (field, old_val, new_val) \<in> set ?changes \<longleftrightarrow>
            (field, new_val) \<in> set checked \<and> old_val = dict_get (record_details r) field
            \<and> py_str old_val \<noteq> py_str new_val"
    by (simp only: field_changes_iff) blast
  have same: "\<forall>field new_val.
          (field, new_val) \<in> set checked
          \<and> dict_get (record_details r) field \<in> {PNone, PStr ''None''} \<and> new_val \<in> {PNone, PStr ''None''}
          \<longrightarrow> field \<notin> set (map fst ?changes)"
  proof (intro allI impI notI)
    fix field new_val
    assume a: "(field, new_val) \<in> set checked
          \<and> dict_get (record_details r) field \<in> {PNone, PStr ''None''} \<and> new_val \<in> {PNone, PStr ''None''}"
      and b: "field \<in> set (map fst ?changes)"
    from b obtain old_val new_val' where m: "(field, old_val, new_val') \<in> set ?changes" by auto
    with iff have c: "(field, new_val') \<in> set checked" "old_val = dict_get (record_details r) field"
      "py_str old_val \<noteq> py_str new_val'" by blast+
    from a c(1) dist have "new_val' = new_val" by (meson eq_key_imp_eq_value)
    moreover from a have "py_str (dict_get (record_details r) field) = ''None''" "py_str new_val = ''None''"
      using py_str_none by blast+
    ultimately show False using c by simp
  qed
  have differ: "\<forall>field new_val.
          (field, new_val) \<in> set checked
          \<and> ((dict_get (record_details r) field = PStr [] \<and> new_val \<in> {PNone, PStr ''None''})
               \<or> (dict_get (record_details r) field \<in> {PNone, PStr ''None''} \<and> new_val = PStr []))
          \<longrightarrow> (field, dict_get (record_details r) field, new_val) \<in> set ?changes"
  proof (intro allI impI)
    fix field new_val
    assume a: "(field, new_val) \<in> set checked
          \<and> ((dict_get (record_details r) field = PStr [] \<and> new_val \<in> {PNone, PStr ''None''})
               \<or> (dict_get (record_details r) field \<in> {PNone, PStr ''None''} \<and> new_val = PStr []))"
    then have "py_str (dict_get (record_details r) field) \<noteq> py_str new_val"
    proof (elim conjE disjE)
      assume "dict_get (record_details r) field = PStr []" "new_val \<in> {PNone, PStr ''None''}"
      moreover from this have "py_str new_val = ''None''" using py_str_none by blast
      ultimately show ?thesis by simp
    next
      assume "dict_get (record_details r) field \<in> {PNone, PStr ''None''}" "new_val = PStr []"
      moreover from this have "py_str (dict_get (record_details r) field) = ''None''" using py_str_none by blast
      ultimately show ?thesis by simp
    qed
    with a iff show "(field, dict_get (record_details r) field, new_val) \<in> set ?changes" by blast
  qed
  let ?cur' = "if ?changes = [] then cur
               else (log_changes now unique_key cur ?changes)
                      \<lparr>active_student_data := sql_update now unique_key (map_of checked) (active_student_data cur),
                       writes := writes cur @ [Updated unique_key]\<rparr>"
  have run: "update_existing_record now cur record unique_key = Inr ?cur'"
    using assms by (simp add: update_existing_record_def get_current_record_details_def Let_def)
  have hist: "student_data_history ?cur' = student_data_history cur @
                map (\<lambda>(field, old_val, new_val).
                       \<lparr>h_unique_key = unique_key, h_change_type = UPDATE, h_field_changed = PStr field,
                        h_old_value = sql_text old_val, h_new_value = sql_text new_val,
                        h_change_timestamp = now\<rparr>) ?changes"
    by (simp add: log_changes_history)
  have wr: "writes ?cur' = writes cur @ (if ?changes = [] then [] else [Updated unique_key])"
    by simp
  have tab: "active_student_data ?cur' =
              (if ?changes = [] then active_student_data cur
               else sql_update now unique_key (map_of checked) (active_student_data cur))"
    by simp
  from run hist wr tab have ex: "\<exists>cur'. update_existing_record now cur record unique_key = Inr cur'
          \<and> student_data_history cur' =
              student_data_history cur @
                map (\<lambda>(field, old_val, new_val).
                       \<lparr>h_unique_key = unique_key, h_change_type = UPDATE, h_field_changed = PStr field,
                        h_old_value = sql_text old_val, h_new_value = sql_text new_val,
                        h_change_timestamp = now\<rparr>) ?changes
          \<and> writes cur' = writes cur @ (if ?changes = [] then [] else [Updated unique_key])
          \<and> active_student_data cur' =
              (if ?changes = [] then active_student_data cur
               else sql_update now unique_key (map_of checked) (active_student_data cur))"
    by blast
  from names iff same differ ex show ?thesis by (intro conjI)
qed

theorem field_changes_by_text_witness:
  "fetchone (active_student_data (example_cursor [example_row (PStr ''None'') (PStr [])]))
       ''S_17_2024-2025_GRADE 1'' = Some (example_row (PStr ''None'') (PStr []))
   \<and> fields_to_check (example_record(''status'' \<mapsto> PNone, ''gender'' \<mapsto> PNone))
       = Inr [(''status'', PNone), (''grade_name'', PStr ''GRADE 1''), (''student_name'', PStr ''Asha K''),
              (''gender'', PNone), (''division_name'', PStr ''A'')]
   \<and> field_changes (record_details (example_row (PStr ''None'') (PStr [])))
        [(''status'', PNone), (''grade_name'', PStr ''GRADE 1''), (''student_name'', PStr ''Asha K''),
         (''gender'', PNone), (''division_name'', PStr ''A'')]
       = [(''gender'', PStr [], PNone)]
   \<and> update_existing_record ''t1'' (example_cursor [example_row (PStr ''None'') (PStr [])])
        (example_record(''status'' \<mapsto> PNone, ''gender'' \<mapsto> PNone)) ''S_17_2024-2025_GRADE 1''
     = Inr \<lparr>active_student_data = [example_row PNone PNone\<lparr>row_timestamp := ''t1''\<rparr>],
            student_data_history =
              [\<lparr>h_unique_key = ''S_17_2024-2025_GRADE 1'', h_change_type = UPDATE,
                h_field_changed = PStr ''gender'', h_old_value = PStr [], h_new_value = PNone,
                h_change_timestamp = ''t1''\<rparr>],
            writes = [Updated ''S_17_2024-2025_GRADE 1'']\<rparr>"
proof -
  let ?k = "''S_17_2024-2025_GRADE 1''"
  let ?r = "example_row (PStr ''None'') (PStr [])"
  let ?cur = "example_cursor [?r]"
  let ?rec = "example_record(''status'' \<mapsto> PNone, ''gender'' \<mapsto> PNone)"
  let ?chk = "[(''status'', PNone), (''grade_name'', PStr ''GRADE 1''), (''student_name'', PStr ''Asha K''),
              (''gender'', PNone), (''division_name'', PStr ''A'')]"
  have 1: "fetchone (active_student_data ?cur) ?k = Some ?r"
    by (simp add: example_cursor_def example_row_def fetchone_def)
  have 2: "fields_to_check ?rec = Inr ?chk"
    by (simp add: fields_to_check_def example_record_def dict_get_def str_eval)
  have 3: "field_changes (record_details ?r) ?chk = [(''gender'', PStr [], PNone)]"
    by (simp add: field_changes_def record_details_def example_row_def dict_get_def)
  from field_changes_by_text [OF 1 2, of "''t1''"] obtain cur' where
    run: "update_existing_record ''t1'' ?cur ?rec ?k = Inr cur'"
    and hist: "student_data_history cur' =
              student_data_history ?cur @
                map (\<lambda>(field, old_val, new_val).
                       \<lparr>h_unique_key = ?k, h_change_type = UPDATE, h_field_changed = PStr field,
                        h_old_value = sql_text old_val, h_new_value = sql_text new_val,
                        h_change_timestamp = ''t1''\<rparr>)
                  (field_changes (record_details ?r) ?chk)"
    and wr: "writes cur' =
              writes ?cur @ (if field_changes (record_details ?r) ?chk = [] then [] else [Updated ?k])"
    and tab: "active_student_data cur' =
              (if field_changes (record_details ?r) ?chk = [] then active_student_data ?cur
               else sql_update ''t1'' ?k (map_of ?chk) (active_student_data ?cur))"
    by blast
  have "cur' = \<lparr>active_student_data = [example_row PNone PNone\<lparr>row_timestamp := ''t1''\<rparr>],
            student_data_history =
              [\<lparr>h_unique_key = ?k, h_change_type = UPDATE,
                h_field_changed = PStr ''gender'', h_old_value = PStr [], h_new_value = PNone,
                h_change_timestamp = ''t1''\<rparr>],
            writes = [Updated ?k]\<rparr>"
  proof (rule cursor.equality)
    show "active_student_data cur' = active_student_data \<lparr>active_student_data = [example_row PNone PNone\<lparr>row_timestamp := ''t1''\<rparr>],
            student_data_history =
              [\<lparr>h_unique_key = ?k, h_change_type = UPDATE,
                h_field_changed = PStr ''gender'', h_old_value = PStr [], h_new_value = PNone,
                h_change_timestamp = ''t1''\<rparr>],
            writes = [Updated ?k]\<rparr>"
      unfolding tab 3 by (simp add: sql_update_def example_cursor_def example_row_def dict_get_def)
    show "student_data_history cur' = student_data_history \<lparr>active_student_data = [example_row PNone PNone\<lparr>row_timestamp := ''t1''\<rparr>],
            student_data_history =
              [\<lparr>h_unique_key = ?k, h_change_type = UPDATE,
                h_field_changed = PStr ''gender'', h_old_value = PStr [], h_new_value = PNone,
                h_change_timestamp = ''t1''\<rparr>],
            writes = [Updated ?k]\<rparr>"
      unfolding hist 3 by (simp add: example_cursor_def)
    show "writes cur' = writes \<lparr>active_student_data = [example_row PNone PNone\<lparr>row_timestamp := ''t1''\<rparr>],
            student_data_history =
              [\<lparr>h_unique_key = ?k, h_change_type = UPDATE,
                h_field_changed = PStr ''gender'', h_old_value = PStr [], h_new_value = PNone,
                h_change_timestamp = ''t1''\<rparr>],
            writes = [Updated ?k]\<rparr>"
      unfolding wr 3 by (simp add: example_cursor_def)
  qed simp
  with run 1 2 3 show ?thesis by simp
qed


section \<open>The history row of an insert\<close>

text \<open>
  Claim C8 as stated fails in one field: the history row of an insert has
  \<^verbatim>\<open>field_changed = 'New Record'\<close>, not \<^verbatim>\<open>NULL\<close>.
\<close>

theorem insert_history_names_new_record:
  "\<not> isl (insert_new_record ''t1'' (example_cursor []) example_record ''S_17_2024-2025_GRADE 1'' ''2024-2025'')
   \<and> map h_field_changed (student_data_history (projr
        (insert_new_record ''t1'' (example_cursor []) example_record ''S_17_2024-2025_GRADE 1'' ''2024-2025'')))
     = [PStr ''New Record'']
   \<and> PStr ''New Record'' \<noteq> PNone"
  by (simp add: db_eval str_eval)

text \<open>
  Claim C8, amended: an insert of a record under a key that the table does not hold yet
  appends exactly one history row, with the change type \<^verbatim>\<open>INSERT\<close>, the field
  \<^verbatim>\<open>'New Record'\<close>, no old value and the new value \<^verbatim>\<open>'Initial Insertion'\<close>; it appends one
  row with that key to the table.
\<close>

theorem insert_new_record_history:
  assumes "fetchone (active_student_data cur) unique_key = None"
    and "insert_new_record now cur record unique_key academic_year = Inr cur'"
  shows "student_data_history cur' = student_data_history cur @
           [\<lparr>h_unique_key = unique_key, h_change_type = INSERT, h_field_changed = PStr ''New Record'',
             h_old_value = PNone, h_new_value = PStr ''Initial Insertion'', h_change_timestamp = now\<rparr>]
         \<and> writes cur' = writes cur @ [Inserted unique_key]
         \<and> (\<exists>r. active_student_data cur' = active_student_data cur @ [r] \<and> row_unique_key r = unique_key
                  \<and> row_academic_year r = academic_year)"
proof -
  from insert_new_record_fields [OF assms(2)] obtain tc where tc: "fields_to_check record = Inr tc" by blast
  from insert_new_record_absent [OF assms(1) tc, of now academic_year] assms(2) show ?thesis by auto
qed

theorem insert_new_record_history_witness:
  "fetchone (active_student_data (example_cursor [])) ''S_17_2024-2025_GRADE 1'' = None
   \<and> (\<exists>cur'. insert_new_record ''t1'' (example_cursor []) example_record ''S_17_2024-2025_GRADE 1'' ''2024-2025''
               = Inr cur'
        \<and> student_data_history cur' =
           [\<lparr>h_unique_key = ''S_17_2024-2025_GRADE 1'', h_change_type = INSERT,
             h_field_changed = PStr ''New Record'', h_old_value = PNone,
             h_new_value = PStr ''Initial Insertion'', h_change_timestamp = ''t1''\<rparr>])"
proof -
  have a: "fetchone (active_student_data (example_cursor [])) ''S_17_2024-2025_GRADE 1'' = None"
    by (simp add: example_cursor_def fetchone_def)
  have "\<exists>cur'. insert_new_record ''t1'' (example_cursor []) example_record ''S_17_2024-2025_GRADE 1'' ''2024-2025''
               = Inr cur'"
    by (simp add: db_eval str_eval)
  then obtain cur' where
    b: "insert_new_record ''t1'' (example_cursor []) example_record ''S_17_2024-2025_GRADE 1'' ''2024-2025'' = Inr cur'"
    by blast
  from insert_new_record_history [OF a b] have
    "student_data_history cur' = student_data_history (example_cursor []) @
           [\<lparr>h_unique_key = ''S_17_2024-2025_GRADE 1'', h_change_type = INSERT,
             h_field_changed = PStr ''New Record'', h_old_value = PNone,
             h_new_value = PStr ''Initial Insertion'', h_change_timestamp = ''t1''\<rparr>]" by blast
  with a b show ?thesis by (simp add: example_cursor_def)
qed

end
